theory Spec2Isabelle
  imports Main "HOL-Library.Word"
begin

unbundle bit_operations_syntax

section \<open>Shared data model\<close>

text \<open>
  The exit reasons named in the sources (\<^verbatim>\<open>ELatentExitReason::Normal\<close>,
  \<^verbatim>\<open>ActionAborted\<close>, \<^verbatim>\<open>ObjectDestroyed\<close>). The enum's declaration lives in
  \<^verbatim>\<open>LatentExitReason.h\<close>, which the sources include but do not contain.
\<close>

datatype ELatentExitReason = Normal | ActionAborted | ObjectDestroyed

text \<open>
  Every \<^verbatim>\<open>checkf\<close>/\<^verbatim>\<open>check\<close> of the sources is a fatal assertion. A failed one is
  the \<open>Inl\<close> branch of the modelled function, one constructor per assertion.
  \<open>NullDereference\<close> and \<open>UseAfterDestroy\<close> stand for a pointer the source
  dereferences without a check.
\<close>

datatype check_failure =
    NotInGameThread
  | DoubleDetach
  | MultipleLatentInfos
  | WrongPromiseType
  | NoWorld
  | WrongBypassState
  | ExitReasonNotRestored
  | CompletedPromisePolled
  | ConflictingExitReasons
  | UnexpectedLatentState
  | DirectExecuteCall
  | ResumedAfterCompletion
  | NullDereference
  | UseAfterDestroy

text \<open>
  Objects of the host engine. A \<^verbatim>\<open>UObject\<close> is known by an identity, by what
  \<^verbatim>\<open>GetWorld()\<close> returns for it (a null pointer is \<open>None\<close>) and by whether
  \<^verbatim>\<open>IsValid\<close> accepts it.
\<close>

type_synonym UWorld = nat

record UObject =
  ObjectId :: nat
  GetWorld :: "UWorld option"
  bObjectValid :: bool

text \<open>\<^verbatim>\<open>IsValid(Ptr)\<close>: a null pointer is never valid.\<close>

definition IsValid :: "UObject option \<Rightarrow> bool" where
  "IsValid Ptr = (case Ptr of None \<Rightarrow> False | Some Obj \<Rightarrow> bObjectValid Obj)"

text \<open>
  \<^verbatim>\<open>FLatentActionInfo\<close>, in the field order that
  \<^verbatim>\<open>FAbilityPromise::MakeLatentInfo\<close> initialises it with:
  \<^verbatim>\<open>{0, DummyId++, TEXT("None"), &Task}\<close>.
\<close>

record FLatentActionInfo =
  Linkage :: int
  UUID :: int
  ExecutionFunction :: string
  CallbackTarget :: "UObject option"

type_synonym FLatentAwaiter = nat

text \<open>
  The bridge object \<^verbatim>\<open>FPendingLatentCoroutine\<close>. Its back pointer
  \<^verbatim>\<open>Promise\<close> either is null or points to the one promise of the modelled
  coroutine, so it is kept as a flag.
\<close>

record FPendingLatentCoroutine =
  Promise :: bool
  LatentInfo :: FLatentActionInfo
  CurrentAwaiter :: "FLatentAwaiter option"

text \<open>
  \<^verbatim>\<open>FLatentPromise\<close>, with the members that the promise's translation unit
  reads and writes: \<^verbatim>\<open>World\<close>, \<^verbatim>\<open>PendingLatentCoroutine\<close> (null, or
  pointing to the one bridge object the promise allocated, so a flag),
  \<^verbatim>\<open>LatentFlags\<close>, \<^verbatim>\<open>ExitReason\<close>, \<^verbatim>\<open>bCanceled\<close>, and
  \<^verbatim>\<open>Extras->IsComplete()\<close>.
\<close>

record FLatentPromise =
  World :: "UWorld option"
  PendingLatentCoroutine :: bool
  LatentFlags :: "32 word"
  ExitReason :: ELatentExitReason
  bCanceled :: bool
  ExtrasComplete :: bool

text \<open>Concrete values on which the theorems below are exercised.\<close>

definition sample_target :: UObject where
  "sample_target = \<lparr>ObjectId = 7, GetWorld = Some 1, bObjectValid = True\<rparr>"

definition sample_info :: FLatentActionInfo where
  "sample_info = \<lparr>Linkage = 3, UUID = 42, ExecutionFunction = ''Continue'',
     CallbackTarget = Some sample_target\<rparr>"

definition sample_bridge :: FPendingLatentCoroutine where
  "sample_bridge = \<lparr>Promise = True, LatentInfo = sample_info, CurrentAwaiter = None\<rparr>"

definition sample_promise :: FLatentPromise where
  "sample_promise = \<lparr>World = Some 1, PendingLatentCoroutine = True,
     LatentFlags = 0, ExitReason = Normal, bCanceled = False, ExtrasComplete = False\<rparr>"

section \<open>Exit reasons\<close>

text \<open>
  \<^verbatim>\<open>FLatentPromise::SetExitReason\<close>: the assertion, then the assignment.
\<close>

definition SetExitReason ::
  "ELatentExitReason \<Rightarrow> FLatentPromise \<Rightarrow> check_failure + FLatentPromise" where
  "SetExitReason Reason p =
     (if ExitReason p = Normal then Inr (p\<lparr>ExitReason := Reason\<rparr>)
      else Inl ConflictingExitReasons)"

text \<open>
  \<^verbatim>\<open>FPendingLatentCoroutine::NotifyActionAborted\<close> and
  \<^verbatim>\<open>NotifyObjectDestroyed\<close>, called on the bridge object \<open>b\<close> while the promise
  \<open>p\<close> it may point to is alive. Both assert the game thread and forward to
  \<open>SetExitReason\<close> when the back pointer is set.
\<close>

definition NotifyActionAborted ::
  "bool \<Rightarrow> FPendingLatentCoroutine \<Rightarrow> FLatentPromise \<Rightarrow> check_failure + FLatentPromise" where
  "NotifyActionAborted gt b p =
     (if \<not> gt then Inl NotInGameThread
      else if Promise b then SetExitReason ActionAborted p
      else Inr p)"

definition NotifyObjectDestroyed ::
  "bool \<Rightarrow> FPendingLatentCoroutine \<Rightarrow> FLatentPromise \<Rightarrow> check_failure + FLatentPromise" where
  "NotifyObjectDestroyed gt b p =
     (if \<not> gt then Inl NotInGameThread
      else if Promise b then SetExitReason ObjectDestroyed p
      else Inr p)"

text \<open>
  A lifetime of exit-reason requests: each request is a direct
  \<open>SetExitReason\<close> call or one of the bridge's two notifications, run in order
  on the game thread; the first failed assertion ends the run.
\<close>

datatype exit_request =
    DirectSet ELatentExitReason
  | ActionAbortedNotice
  | ObjectDestroyedNotice

fun requested_reason :: "exit_request \<Rightarrow> ELatentExitReason" where
  "requested_reason (DirectSet r) = r"
| "requested_reason ActionAbortedNotice = ActionAborted"
| "requested_reason ObjectDestroyedNotice = ObjectDestroyed"

fun apply_request ::
  "FPendingLatentCoroutine \<Rightarrow> exit_request \<Rightarrow> FLatentPromise \<Rightarrow> check_failure + FLatentPromise" where
  "apply_request b (DirectSet r) p = SetExitReason r p"
| "apply_request b ActionAbortedNotice p = NotifyActionAborted True b p"
| "apply_request b ObjectDestroyedNotice p = NotifyObjectDestroyed True b p"

fun apply_requests ::
  "FPendingLatentCoroutine \<Rightarrow> exit_request list \<Rightarrow> FLatentPromise \<Rightarrow> check_failure + FLatentPromise" where
  "apply_requests b [] p = Inr p"
| "apply_requests b (q # qs) p =
     (case apply_request b q p of
        Inl e \<Rightarrow> Inl e
      | Inr p' \<Rightarrow> apply_requests b qs p')"

definition non_normal :: "exit_request list \<Rightarrow> exit_request list" where
  "non_normal qs = filter (\<lambda>q. requested_reason q \<noteq> Normal) qs"

section \<open>The latent promise\<close>

text \<open>
  Modelled from the spec: the declaration of the flag constants is not in the
  sources, which only use them by name. The spec calls them "a set of bit flags
  (\<^verbatim>\<open>Detached\<close>, \<^verbatim>\<open>InFinalSuspend\<close>)": two distinct single bits.
\<close>

definition LF_Detached :: "32 word" where
  "LF_Detached = 1"

definition LF_InFinalSuspend :: "32 word" where
  "LF_InFinalSuspend = 2"

text \<open>
  The two locals of \<^verbatim>\<open>Respond\<close>, \<^verbatim>\<open>bool bDetached = Flags & LF_Detached\<close> and
  \<^verbatim>\<open>bool bFinalSuspend = Flags & LF_InFinalSuspend\<close>; \<^verbatim>\<open>Resume\<close> tests the
  first one in the same way.
\<close>

definition bDetached :: "32 word \<Rightarrow> bool" where
  "bDetached Flags = (Flags AND LF_Detached \<noteq> 0)"

definition bFinalSuspend :: "32 word \<Rightarrow> bool" where
  "bFinalSuspend Flags = (Flags AND LF_InFinalSuspend \<noteq> 0)"

text \<open>\<^verbatim>\<open>AttachToGameThread\<close>: the assertion, then \<^verbatim>\<open>LatentFlags &= ~LF_Detached\<close>.\<close>

definition AttachToGameThread :: "bool \<Rightarrow> FLatentPromise \<Rightarrow> check_failure + FLatentPromise" where
  "AttachToGameThread gt p =
     (if \<not> gt then Inl NotInGameThread
      else Inr (p\<lparr>LatentFlags := LatentFlags p AND NOT LF_Detached\<rparr>))"

text \<open>\<^verbatim>\<open>DetachFromGameThread\<close>: \<^verbatim>\<open>LatentFlags |= LF_Detached\<close>, with no check.\<close>

definition DetachFromGameThread :: "FLatentPromise \<Rightarrow> FLatentPromise" where
  "DetachFromGameThread p = p\<lparr>LatentFlags := LatentFlags p OR LF_Detached\<rparr>"

text \<open>\<^verbatim>\<open>final_suspend\<close>: \<^verbatim>\<open>LatentFlags = LF_InFinalSuspend\<close>.\<close>

definition final_suspend :: "FLatentPromise \<Rightarrow> FLatentPromise" where
  "final_suspend p = p\<lparr>LatentFlags := LF_InFinalSuspend\<rparr>"

text \<open>
  Modelled from the spec: \<^verbatim>\<open>Cancel()\<close>, which the bridge's destructor calls,
  is not in the sources. The spec has the bridge "mark cancellation", and the
  assertion of \<^verbatim>\<open>Resume(true)\<close> that follows the call requires \<^verbatim>\<open>bCanceled\<close>.
\<close>

definition Cancel :: "FLatentPromise \<Rightarrow> FLatentPromise" where
  "Cancel p = p\<lparr>bCanceled := True\<rparr>"

text \<open>
  The calls that \<^verbatim>\<open>Respond\<close> makes on the \<^verbatim>\<open>FLatentResponse\<close> it is handed,
  in order.
\<close>

datatype response_call =
    DoneIf bool
  | TriggerLink string int "UObject option"

text \<open>
  \<^verbatim>\<open>FLatentPromise::Respond\<close>. The condition is the source's
  \<^verbatim>\<open>bCanceled && !bDetached || bFinalSuspend\<close>.
\<close>

definition Respond ::
  "bool \<Rightarrow> FLatentPromise \<Rightarrow> FLatentActionInfo \<Rightarrow> check_failure + response_call list" where
  "Respond gt p Info =
     (if \<not> gt then Inl NotInGameThread
      else if ExtrasComplete p then Inl CompletedPromisePolled
      else
        let Flags = LatentFlags p in
        Inr ((if bCanceled p \<and> \<not> bDetached Flags \<or> bFinalSuspend Flags
              then [DoneIf True] else []) @
             (if bFinalSuspend Flags
              then [TriggerLink (ExecutionFunction Info) (Linkage Info) (CallbackTarget Info)]
              else [])))"

text \<open>
  The state that the promise's operations share: the global scratch variable
  \<^verbatim>\<open>GLatentExitReason\<close>; the tasks posted with
  \<^verbatim>\<open>AsyncTask(ENamedThreads::GameThread, ...)\<close> and not yet run; the coroutine
  frame with its promise (\<open>None\<close> once \<^verbatim>\<open>Handle.destroy()\<close> has run); the bridge
  object on the heap (\<open>None\<close> before \<^verbatim>\<open>new\<close> and after its destructor); and the
  values of \<^verbatim>\<open>GLatentExitReason\<close> that were in place while a frame was being
  destroyed, which is what the destructors of the frame's locals can read.
\<close>

datatype game_task = ThreadSafeDestroyTask

record latent_system =
  GLatentExitReason :: ELatentExitReason
  GameThreadTasks :: "game_task list"
  Frame :: "FLatentPromise option"
  Action :: "FPendingLatentCoroutine option"
  ExitReasonSeen :: "ELatentExitReason list"

text \<open>
  What the promise reaches through its \<^verbatim>\<open>PendingLatentCoroutine\<close> pointer, cast
  to the bridge's type: nothing when the pointer is null.
\<close>

definition Pending :: "latent_system \<Rightarrow> FLatentPromise \<Rightarrow> FPendingLatentCoroutine option" where
  "Pending s p = (if PendingLatentCoroutine p then Action s else None)"

text \<open>
  \<^verbatim>\<open>FPendingLatentCoroutine::Detach\<close>. Off the game thread it posts itself
  there and blocks until that call is done, so both branches end in the same
  assertion and assignment.
\<close>

definition Detach :: "bool \<Rightarrow> FPendingLatentCoroutine \<Rightarrow> check_failure + FPendingLatentCoroutine" where
  "Detach gt b =
     (if gt then
        (if Promise b then Inr (b\<lparr>Promise := False\<rparr>) else Inl DoubleDetach)
      else
        (if Promise b then Inr (b\<lparr>Promise := False\<rparr>) else Inl DoubleDetach))"

text \<open>
  \<^verbatim>\<open>FLatentPromise::~FLatentPromise\<close>: the assertion, the reset of the global,
  and, when \<^verbatim>\<open>std::uncaught_exceptions()\<close> is non-zero, the bridge's
  \<^verbatim>\<open>Detach\<close>. The frame is gone afterwards.
\<close>

definition FLatentPromise_dtor :: "bool \<Rightarrow> bool \<Rightarrow> latent_system \<Rightarrow> check_failure + latent_system" where
  "FLatentPromise_dtor gt uncaught s =
     (case Frame s of
        None \<Rightarrow> Inl UseAfterDestroy
      | Some p \<Rightarrow>
          if \<not> gt then Inl NotInGameThread
          else
            let s1 = s\<lparr>GLatentExitReason := Normal\<rparr> in
            if uncaught then
              (case Pending s1 p of
                 None \<Rightarrow> Inl NullDereference
               | Some b \<Rightarrow>
                   (case Detach gt b of
                      Inl e \<Rightarrow> Inl e
                    | Inr b' \<Rightarrow> Inr (s1\<lparr>Frame := None, Action := Some b'\<rparr>)))
            else Inr (s1\<lparr>Frame := None\<rparr>))"

text \<open>
  \<^verbatim>\<open>Handle.destroy()\<close> on a latent coroutine: the frame's locals are destroyed
  with the global as it stands, then the promise's destructor runs.
\<close>

definition Handle_destroy :: "bool \<Rightarrow> bool \<Rightarrow> latent_system \<Rightarrow> check_failure + latent_system" where
  "Handle_destroy gt uncaught s =
     FLatentPromise_dtor gt uncaught
       (s\<lparr>ExitReasonSeen := ExitReasonSeen s @ [GLatentExitReason s]\<rparr>)"

text \<open>\<^verbatim>\<open>FLatentPromise::ThreadSafeDestroy\<close>.\<close>

definition ThreadSafeDestroy :: "bool \<Rightarrow> bool \<Rightarrow> latent_system \<Rightarrow> check_failure + latent_system" where
  "ThreadSafeDestroy gt uncaught s =
     (if \<not> gt then
        Inr (s\<lparr>GameThreadTasks := GameThreadTasks s @ [ThreadSafeDestroyTask]\<rparr>)
      else
        (case Frame s of
           None \<Rightarrow> Inl UseAfterDestroy
         | Some p \<Rightarrow>
             (case Handle_destroy gt uncaught (s\<lparr>GLatentExitReason := ExitReason p\<rparr>) of
                Inl e \<Rightarrow> Inl e
              | Inr s' \<Rightarrow>
                  if GLatentExitReason s' = Normal then Inr s'
                  else Inl ExitReasonNotRestored)))"

text \<open>
  The game thread running the task at the head of its queue: the posted lambda
  calls \<^verbatim>\<open>ThreadSafeDestroy\<close> again, now on the game thread.
\<close>

definition run_game_thread_task :: "bool \<Rightarrow> latent_system \<Rightarrow> check_failure + latent_system" where
  "run_game_thread_task uncaught s =
     (case GameThreadTasks s of
        [] \<Rightarrow> Inr s
      | ThreadSafeDestroyTask # rest \<Rightarrow>
          ThreadSafeDestroy True uncaught (s\<lparr>GameThreadTasks := rest\<rparr>))"

text \<open>
  \<^verbatim>\<open>FLatentPromise::Resume(bool bBypassCancellationHolds)\<close>. The base class's
  \<^verbatim>\<open>FPromise::Resume(bool)\<close>, which it ends with, is not in the sources and is
  the parameter \<open>base\<close>: whatever the base class and the coroutine body it
  re-enters do to the shared state.
\<close>

definition Resume ::
  "bool \<Rightarrow> bool \<Rightarrow> (bool \<Rightarrow> latent_system \<Rightarrow> check_failure + latent_system) \<Rightarrow>
   latent_system \<Rightarrow> check_failure + latent_system" where
  "Resume gt bBypassCancellationHolds base s =
     (case Frame s of
        None \<Rightarrow> Inl UseAfterDestroy
      | Some p \<Rightarrow>
          if bBypassCancellationHolds \<and> \<not> (gt \<and> bCanceled p) then Inl WrongBypassState
          else if bBypassCancellationHolds \<and> bDetached (LatentFlags p) then Inr s
          else if bDetached (LatentFlags p) \<and> gt then
            (case AttachToGameThread gt p of
               Inl e \<Rightarrow> Inl e
             | Inr p' \<Rightarrow> base bBypassCancellationHolds (s\<lparr>Frame := Some p'\<rparr>))
          else base bBypassCancellationHolds s)"

text \<open>
  \<^verbatim>\<open>FPendingLatentCoroutine::SetCurrentAwaiter\<close>; \<^verbatim>\<open>ensureMsgf\<close> reports and
  goes on, so it is no branch here.
\<close>

definition Pending_SetCurrentAwaiter ::
  "bool \<Rightarrow> FLatentAwaiter option \<Rightarrow> FPendingLatentCoroutine \<Rightarrow> check_failure + FPendingLatentCoroutine" where
  "Pending_SetCurrentAwaiter gt Awaiter b =
     (if \<not> gt then Inl NotInGameThread
      else Inr (b\<lparr>CurrentAwaiter := Awaiter\<rparr>))"

text \<open>\<^verbatim>\<open>FLatentPromise::SetCurrentAwaiter\<close>.\<close>

definition SetCurrentAwaiter ::
  "bool \<Rightarrow> FLatentAwaiter option \<Rightarrow> latent_system \<Rightarrow> check_failure + latent_system" where
  "SetCurrentAwaiter gt Awaiter s =
     (case Frame s of
        None \<Rightarrow> Inl UseAfterDestroy
      | Some p \<Rightarrow>
          if \<not> gt then Inl NotInGameThread
          else if LatentFlags p \<noteq> 0 then Inl UnexpectedLatentState
          else
            (case Pending s p of
               None \<Rightarrow> Inl NullDereference
             | Some b \<Rightarrow>
                 (case Pending_SetCurrentAwaiter gt Awaiter b of
                    Inl e \<Rightarrow> Inl e
                  | Inr b' \<Rightarrow> Inr (s\<lparr>Action := Some b'\<rparr>))))"

text \<open>
  \<^verbatim>\<open>FPendingLatentCoroutine::UpdateOperation\<close>, called on the bridge object of
  the state. \<open>ShouldResume\<close> is the awaiter's own method. \<^verbatim>\<open>Promise->Resume()\<close>
  passes no argument, that is, no bypass. The result is the state afterwards
  and the calls made on the response.
\<close>

definition UpdateOperation ::
  "bool \<Rightarrow> (FLatentAwaiter \<Rightarrow> bool) \<Rightarrow>
   (bool \<Rightarrow> latent_system \<Rightarrow> check_failure + latent_system) \<Rightarrow>
   latent_system \<Rightarrow> check_failure + latent_system \<times> response_call list" where
  "UpdateOperation gt ShouldResume base s =
     (if \<not> gt then Inl NotInGameThread
      else
        (case Action s of
           None \<Rightarrow> Inl UseAfterDestroy
         | Some b \<Rightarrow>
             if \<not> Promise b then Inr (s, [DoneIf True])
             else
               (case (case CurrentAwaiter b of
                        None \<Rightarrow> Inr s
                      | Some a \<Rightarrow>
                          if ShouldResume a
                          then Resume gt False base (s\<lparr>Action := Some (b\<lparr>CurrentAwaiter := None\<rparr>)\<rparr>)
                          else Inr s) of
                  Inl e \<Rightarrow> Inl e
                | Inr s1 \<Rightarrow>
                    (case (Frame s1, Action s1) of
                       (Some p1, Some b1) \<Rightarrow>
                         (case Respond gt p1 (LatentInfo b1) of
                            Inl e \<Rightarrow> Inl e
                          | Inr calls \<Rightarrow> Inr (s1, calls))
                     | _ \<Rightarrow> Inl UseAfterDestroy))))"

text \<open>
  \<^verbatim>\<open>FPendingLatentCoroutine::~FPendingLatentCoroutine\<close>: the assertion, then
  \<^verbatim>\<open>Promise->Cancel(); Promise->Resume(true);\<close> when the back pointer is set.
  The bridge object is gone afterwards.
\<close>

definition FPendingLatentCoroutine_dtor ::
  "bool \<Rightarrow> (bool \<Rightarrow> latent_system \<Rightarrow> check_failure + latent_system) \<Rightarrow>
   latent_system \<Rightarrow> check_failure + latent_system" where
  "FPendingLatentCoroutine_dtor gt base s =
     (if \<not> gt then Inl NotInGameThread
      else
        (case Action s of
           None \<Rightarrow> Inl UseAfterDestroy
         | Some b \<Rightarrow>
             if Promise b then
               (case Frame s of
                  None \<Rightarrow> Inl UseAfterDestroy
                | Some p \<Rightarrow>
                    (case Resume gt True base (s\<lparr>Frame := Some (Cancel p)\<rparr>) of
                       Inl e \<Rightarrow> Inl e
                     | Inr s' \<Rightarrow> Inr (s'\<lparr>Action := None\<rparr>)))
             else Inr (s\<lparr>Action := None\<rparr>)))"

definition sample_system :: latent_system where
  "sample_system = \<lparr>GLatentExitReason = Normal, GameThreadTasks = [],
     Frame = Some sample_promise, Action = Some sample_bridge, ExitReasonSeen = []\<rparr>"

section \<open>Starting a latent coroutine\<close>

text \<open>
  Modelled from the spec: the host's latent action manager is engine code. The
  spec asks of it "find existing action by (target, id)" and "add new action".
  It is kept as the list of registered actions, each under its callback target
  and id.
\<close>

type_synonym FLatentActionManager = "(UObject option \<times> int \<times> FPendingLatentCoroutine) list"

fun FindExistingAction ::
  "FLatentActionManager \<Rightarrow> UObject option \<Rightarrow> int \<Rightarrow> FPendingLatentCoroutine option" where
  "FindExistingAction [] Target Uid = None"
| "FindExistingAction ((t, i, a) # rest) Target Uid =
     (if t = Target \<and> i = Uid then Some a else FindExistingAction rest Target Uid)"

definition AddNewAction ::
  "FLatentActionManager \<Rightarrow> UObject option \<Rightarrow> int \<Rightarrow> FPendingLatentCoroutine \<Rightarrow> FLatentActionManager" where
  "AddNewAction LAM Target Uid a = LAM @ [(Target, Uid, a)]"

text \<open>\<^verbatim>\<open>FInitialSuspend::EAction\<close>.\<close>

datatype EAction = FInitialSuspend_Resume | FInitialSuspend_Destroy

text \<open>
  \<^verbatim>\<open>FLatentPromise::initial_suspend\<close>. \<^verbatim>\<open>World\<close> and the bridge pointer are
  dereferenced without a check. The result is the action chosen and the action
  manager afterwards.
\<close>

definition initial_suspend ::
  "bool \<Rightarrow> FLatentActionManager \<Rightarrow> latent_system \<Rightarrow>
   check_failure + EAction \<times> FLatentActionManager" where
  "initial_suspend gt LAM s =
     (if \<not> gt then Inl NotInGameThread
      else
        (case Frame s of
           None \<Rightarrow> Inl UseAfterDestroy
         | Some p \<Rightarrow>
             (case World p of
                None \<Rightarrow> Inl NullDereference
              | Some w \<Rightarrow>
                  (case Pending s p of
                     None \<Rightarrow> Inl NullDereference
                   | Some PendingAction \<Rightarrow>
                       let Info = LatentInfo PendingAction in
                       if FindExistingAction LAM (CallbackTarget Info) (UUID Info) \<noteq> None
                       then Inr (FInitialSuspend_Destroy, LAM)
                       else if \<not> IsValid (CallbackTarget Info)
                       then Inr (FInitialSuspend_Destroy, LAM)
                       else Inr (FInitialSuspend_Resume,
                                 AddNewAction LAM (CallbackTarget Info) (UUID Info)
                                   PendingAction)))))"

text \<open>
  \<^verbatim>\<open>FInitialSuspend::await_suspend\<close>: \<^verbatim>\<open>Handle.promise().Resume()\<close> or
  \<^verbatim>\<open>Handle.destroy()\<close>.
\<close>

definition await_suspend ::
  "bool \<Rightarrow> bool \<Rightarrow> (bool \<Rightarrow> latent_system \<Rightarrow> check_failure + latent_system) \<Rightarrow>
   EAction \<Rightarrow> latent_system \<Rightarrow> check_failure + latent_system" where
  "await_suspend gt uncaught base act s =
     (case act of
        FInitialSuspend_Resume \<Rightarrow> Resume gt False base s
      | FInitialSuspend_Destroy \<Rightarrow> Handle_destroy gt uncaught s)"

text \<open>
  The start of the coroutine: \<^verbatim>\<open>co_await promise.initial_suspend()\<close>. The
  awaiter's \<^verbatim>\<open>await_ready\<close> is false, so \<^verbatim>\<open>await_suspend\<close> always runs.
\<close>

definition start_latent ::
  "bool \<Rightarrow> bool \<Rightarrow> (bool \<Rightarrow> latent_system \<Rightarrow> check_failure + latent_system) \<Rightarrow>
   FLatentActionManager \<Rightarrow> latent_system \<Rightarrow>
   check_failure + EAction \<times> FLatentActionManager \<times> latent_system" where
  "start_latent gt uncaught base LAM s =
     (case initial_suspend gt LAM s of
        Inl e \<Rightarrow> Inl e
      | Inr (act, LAM') \<Rightarrow>
          (case await_suspend gt uncaught base act s of
             Inl e \<Rightarrow> Inl e
           | Inr s' \<Rightarrow> Inr (act, LAM', s')))"

section \<open>Constructing a latent promise\<close>

text \<open>
  A constructor argument as \<^verbatim>\<open>Init(Args...)\<close> receives it: an lvalue, known by
  its static type and its value.
  \<^item> \<open>ConstUObjectPtr\<close>: a pointer of type \<^verbatim>\<open>const UObject*\<close>, possibly null.
  \<^item> \<open>ObjectPtr\<close>: any other pointer to an owning object, that is
    \<^verbatim>\<open>UObject*\<close> or a pointer to a class derived from \<^verbatim>\<open>UObject\<close>, possibly
    null.
  \<^item> \<open>UObjectRef\<close>: an object of class \<^verbatim>\<open>UObject\<close> or of a class derived from
    it, such as the \<^verbatim>\<open>*this\<close> of a member coroutine.
  \<^item> \<open>LatentInfoArg\<close>: an \<^verbatim>\<open>FLatentActionInfo\<close>.
  \<^item> \<open>OtherArg\<close>: an argument of any other type.
\<close>

datatype ctor_arg =
    ConstUObjectPtr "UObject option"
  | ObjectPtr "UObject option"
  | UObjectRef UObject
  | LatentInfoArg FLatentActionInfo
  | OtherArg

text \<open>
  The three overloads \<^verbatim>\<open>Init(const UObject*, T&...)\<close>,
  \<^verbatim>\<open>Init(FLatentActionInfo, T&...)\<close> and \<^verbatim>\<open>Init(T&, A&...)\<close>, and the one
  that overload resolution selects for a first argument.
  \<^item> A \<^verbatim>\<open>const UObject*\<close> lvalue matches the pointer overload and the generic
    one with an identity conversion each; the pointer overload is the more
    specialised template and is selected.
  \<^item> For a \<^verbatim>\<open>UObject*\<close> or a derived-class pointer the generic overload
    binds \<^verbatim>\<open>T&\<close> by identity, while the pointer overload needs a qualification
    or pointer conversion, so the generic overload is the better match.
  \<^item> An object binds to \<^verbatim>\<open>T&\<close> only; neither other overload is viable.
  \<^item> An \<^verbatim>\<open>FLatentActionInfo\<close> lvalue matches its own overload and the generic
    one by identity; its own is the more specialised.
\<close>

datatype Init_overload = Init_pointer | Init_latent_info | Init_generic

fun selected_overload :: "ctor_arg \<Rightarrow> Init_overload" where
  "selected_overload (ConstUObjectPtr WorldContext) = Init_pointer"
| "selected_overload (ObjectPtr Ptr) = Init_generic"
| "selected_overload (UObjectRef First) = Init_generic"
| "selected_overload (LatentInfoArg Info) = Init_latent_info"
| "selected_overload OtherArg = Init_generic"

text \<open>
  The test of the generic overload,
  \<^verbatim>\<open>std::is_convertible_v<T&, const UObject&>\<close>: true of an object, false of a
  pointer of any kind and of everything else.
\<close>

fun is_convertible_to_UObject_ref :: "ctor_arg \<Rightarrow> bool" where
  "is_convertible_to_UObject_ref (UObjectRef First) = True"
| "is_convertible_to_UObject_ref _ = False"

text \<open>
  \<^verbatim>\<open>CreateLatentAction(FLatentActionInfo&&)\<close>, on the promise under
  construction and the heap cell of its bridge object.
\<close>

definition CreateLatentAction ::
  "FLatentActionInfo \<Rightarrow> FLatentPromise \<times> FPendingLatentCoroutine option \<Rightarrow>
   check_failure + FLatentPromise \<times> FPendingLatentCoroutine option" where
  "CreateLatentAction Info st =
     (case st of (p, a) \<Rightarrow>
        if PendingLatentCoroutine p then Inl MultipleLatentInfos
        else Inr (p\<lparr>PendingLatentCoroutine := True\<rparr>,
                  Some \<lparr>Promise = True, LatentInfo = Info, CurrentAwaiter = None\<rparr>))"

text \<open>
  The body of \<^verbatim>\<open>Init(const UObject* WorldContext, T&...)\<close> before it recurses:
  \<^verbatim>\<open>if (!World && WorldContext) World = WorldContext->GetWorld();\<close>
\<close>

definition Init_WorldContext :: "UObject option \<Rightarrow> FLatentPromise \<Rightarrow> FLatentPromise" where
  "Init_WorldContext WorldContext p =
     (case WorldContext of
        None \<Rightarrow> p
      | Some Obj \<Rightarrow> if World p = None then p\<lparr>World := GetWorld Obj\<rparr> else p)"

text \<open>
  \<^verbatim>\<open>Init\<close>: the argument-free \<^verbatim>\<open>Init()\<close> that ends the recursion, then
  one equation for each kind of first argument, with the body of the overload
  that \<open>selected_overload\<close> names for it. The generic overload forwards an
  argument that passes its test to the pointer overload as
  \<^verbatim>\<open>static_cast<const UObject*>(std::addressof(First))\<close>, and drops any other.
  \<open>GWorld\<close> is the engine's global.
\<close>

fun Init ::
  "UWorld option \<Rightarrow> ctor_arg list \<Rightarrow> FLatentPromise \<times> FPendingLatentCoroutine option \<Rightarrow>
   check_failure + FLatentPromise \<times> FPendingLatentCoroutine option" where
  "Init GWorld [] (p, a) =
     (if \<not> PendingLatentCoroutine p then Inl WrongPromiseType
      else if World p = None then
        (case GWorld of
           None \<Rightarrow> Inl NoWorld
         | Some w \<Rightarrow> Inr (p\<lparr>World := Some w\<rparr>, a))
      else Inr (p, a))"
| "Init GWorld (ConstUObjectPtr WorldContext # Args) (p, a) =
     Init GWorld Args (Init_WorldContext WorldContext p, a)"
| "Init GWorld (ObjectPtr Ptr # Args) (p, a) = Init GWorld Args (p, a)"
| "Init GWorld (LatentInfoArg Info # Args) (p, a) =
     (if PendingLatentCoroutine p then Inl MultipleLatentInfos
      else
        (case CreateLatentAction Info (p, a) of
           Inl e \<Rightarrow> Inl e
         | Inr st \<Rightarrow> Init GWorld Args st))"
| "Init GWorld (UObjectRef First # Args) (p, a) =
     Init GWorld Args (Init_WorldContext (Some First) p, a)"
| "Init GWorld (OtherArg # Args) (p, a) = Init GWorld Args (p, a)"

text \<open>
  The members' initialisers: null pointers, no flag, the exit reason
  \<^verbatim>\<open>static_cast<ELatentExitReason>(0)\<close>, not cancelled, not complete.
\<close>

definition new_promise :: FLatentPromise where
  "new_promise = \<lparr>World = None, PendingLatentCoroutine = False, LatentFlags = 0,
     ExitReason = Normal, bCanceled = False, ExtrasComplete = False\<rparr>"

text \<open>The constructor \<^verbatim>\<open>FLatentPromise(T&&... Args)\<close>.\<close>

definition FLatentPromise_ctor ::
  "bool \<Rightarrow> UWorld option \<Rightarrow> ctor_arg list \<Rightarrow>
   check_failure + FLatentPromise \<times> FPendingLatentCoroutine option" where
  "FLatentPromise_ctor gt GWorld Args =
     (if \<not> gt then Inl NotInGameThread
      else Init GWorld Args (new_promise, None))"

text \<open>
  \<^verbatim>\<open>coroutine_traits::LatentInfoCount\<close>: the number of arguments convertible to
  \<^verbatim>\<open>FLatentActionInfo\<close>. The traits pick \<^verbatim>\<open>FLatentPromise\<close> when it is one and
  reject the signature when it is larger.
\<close>

fun LatentInfoCount :: "ctor_arg list \<Rightarrow> nat" where
  "LatentInfoCount [] = 0"
| "LatentInfoCount (LatentInfoArg Info # Args) = Suc (LatentInfoCount Args)"
| "LatentInfoCount (_ # Args) = LatentInfoCount Args"

text \<open>
  The owning object that an argument is or points to, whatever its static
  type: none for a null pointer and for an argument that is no object.
\<close>

fun owning_object :: "ctor_arg \<Rightarrow> UObject option" where
  "owning_object (ConstUObjectPtr Ptr) = Ptr"
| "owning_object (ObjectPtr Ptr) = Ptr"
| "owning_object (UObjectRef Obj) = Some Obj"
| "owning_object _ = None"

text \<open>
  The scan as the specification words it, to compare \<open>Init\<close> with: the
  context of the first owning-object argument, from the left, that yields one.
\<close>

fun spec_first_context :: "ctor_arg list \<Rightarrow> UWorld option" where
  "spec_first_context [] = None"
| "spec_first_context (X # Args) =
     (case owning_object X of
        None \<Rightarrow> spec_first_context Args
      | Some Obj \<Rightarrow>
          (case GetWorld Obj of None \<Rightarrow> spec_first_context Args | Some w \<Rightarrow> Some w))"

text \<open>
  The arguments that \<open>Init\<close> hands to its pointer overload, in order: those
  for which that overload is selected, and those that pass the generic
  overload's test.
\<close>

fun world_contexts :: "ctor_arg list \<Rightarrow> UObject option list" where
  "world_contexts [] = []"
| "world_contexts (X # Args) =
     (if selected_overload X = Init_pointer \<or> is_convertible_to_UObject_ref X
      then owning_object X # world_contexts Args
      else world_contexts Args)"

text \<open>
  The world that a run of the pointer overload over these arguments settles
  on: the first that is non-null and whose \<^verbatim>\<open>GetWorld()\<close> is non-null.
\<close>

fun first_world :: "UObject option list \<Rightarrow> UWorld option" where
  "first_world [] = None"
| "first_world (None # Rest) = first_world Rest"
| "first_world (Some Obj # Rest) =
     (case GetWorld Obj of None \<Rightarrow> first_world Rest | Some w \<Rightarrow> Some w)"

section \<open>The ability promise\<close>

text \<open>
  The statics of the ability layer, \<^verbatim>\<open>TAbilityPromise<T>::bCalledFromActivate\<close>
  and the \<^verbatim>\<open>DummyId\<close> of \<^verbatim>\<open>MakeLatentInfo\<close>, with whatever state the target
  ability keeps.
\<close>

record 't ability_state =
  bCalledFromActivate :: bool
  DummyId :: "32 word"
  TargetState :: 't

text \<open>
  \<^verbatim>\<open>FAbilityPromise::MakeLatentInfo\<close>: \<^verbatim>\<open>{0, DummyId++, TEXT("None"), &Task}\<close>.
  \<^verbatim>\<open>DummyId\<close> is a \<^verbatim>\<open>static int\<close>: the id handed out is its signed value, and
  the increment wraps around at the largest \<^verbatim>\<open>int\<close>.
\<close>

definition MakeLatentInfo ::
  "UObject \<Rightarrow> 't ability_state \<Rightarrow> FLatentActionInfo \<times> 't ability_state" where
  "MakeLatentInfo Task st =
     (\<lparr>Linkage = 0, UUID = sint (DummyId st), ExecutionFunction = ''None'',
       CallbackTarget = Some Task\<rparr>,
      st\<lparr>DummyId := DummyId st + 1\<rparr>)"

text \<open>
  \<^verbatim>\<open>FAbilityPromise::FAbilityPromise(UObject& Target)\<close>: the latent promise's
  constructor on \<^verbatim>\<open>(Target, MakeLatentInfo(Target))\<close>, then the assertion.
\<close>

definition FAbilityPromise_ctor ::
  "bool \<Rightarrow> UWorld option \<Rightarrow> UObject \<Rightarrow> 't ability_state \<Rightarrow>
   check_failure + (FLatentPromise \<times> FPendingLatentCoroutine option) \<times> 't ability_state" where
  "FAbilityPromise_ctor gt GWorld Target st =
     (case MakeLatentInfo Target st of (Info, st1) \<Rightarrow>
        (case FLatentPromise_ctor gt GWorld [UObjectRef Target, LatentInfoArg Info] of
           Inl e \<Rightarrow> Inl e
         | Inr pa \<Rightarrow> if \<not> gt then Inl NotInGameThread else Inr (pa, st1)))"

text \<open>
  \<^verbatim>\<open>TAbilityPromise<T>::TAbilityPromise(T& Target)\<close>. \<open>CoroutineStarting\<close> is the
  target's method of that name, which the sources call and do not contain.
\<close>

definition TAbilityPromise_ctor ::
  "bool \<Rightarrow> UWorld option \<Rightarrow> ('t ability_state \<Rightarrow> 't ability_state) \<Rightarrow> UObject \<Rightarrow>
   't ability_state \<Rightarrow>
   check_failure + (FLatentPromise \<times> FPendingLatentCoroutine option) \<times> 't ability_state" where
  "TAbilityPromise_ctor gt GWorld CoroutineStarting Target st =
     (case FAbilityPromise_ctor gt GWorld Target st of
        Inl e \<Rightarrow> Inl e
      | Inr (pa, st1) \<Rightarrow>
          if \<not> bCalledFromActivate st1 then Inl DirectExecuteCall
          else Inr (pa, CoroutineStarting (st1\<lparr>bCalledFromActivate := False\<rparr>)))"

text \<open>
  A history of the ability layer on the game thread: the flag is set, or an
  ability coroutine is started on a target. \<open>started\<close> counts the starts that
  went through; a failed assertion is fatal and ends the history.
\<close>

datatype ability_op = SetCalledFromActivate | StartCoroutine UObject

fun started ::
  "UWorld option \<Rightarrow> ('t ability_state \<Rightarrow> 't ability_state) \<Rightarrow> ability_op list \<Rightarrow>
   't ability_state \<Rightarrow> nat" where
  "started GWorld CoroutineStarting [] st = 0"
| "started GWorld CoroutineStarting (SetCalledFromActivate # ops) st =
     started GWorld CoroutineStarting ops (st\<lparr>bCalledFromActivate := True\<rparr>)"
| "started GWorld CoroutineStarting (StartCoroutine Target # ops) st =
     (case TAbilityPromise_ctor True GWorld CoroutineStarting Target st of
        Inl e \<Rightarrow> 0
      | Inr (pa, st') \<Rightarrow> Suc (started GWorld CoroutineStarting ops st'))"

definition settings :: "ability_op list \<Rightarrow> nat" where
  "settings ops = length (filter (\<lambda>x. x = SetCalledFromActivate) ops)"

section \<open>Aggregate awaiters\<close>

text \<open>
  \<^verbatim>\<open>FOptionalHandleVariant\<close>: no continuation yet (\<^verbatim>\<open>std::monostate\<close>), or the
  handle of the awaiting parent, async or latent.
\<close>

datatype FOptionalHandleVariant = monostate | FAsyncHandle nat | FLatentHandle nat

text \<open>
  \<^verbatim>\<open>FAggregateAwaiter::FData\<close>. The lock serialises the critical sections, so
  each of them is one step here. \<^verbatim>\<open>Count\<close> starts at no more than the number
  of arguments and drops by one per child, so it stays far from the limits of
  \<^verbatim>\<open>int\<close>.
\<close>

record FData =
  Count :: int
  Index :: int
  Handle :: FOptionalHandleVariant

definition FData_ctor :: "int \<Rightarrow> FData" where
  "FData_ctor c = \<lparr>Count = c, Index = - 1, Handle = monostate\<rparr>"

text \<open>
  The part of \<^verbatim>\<open>Consume\<close> after \<^verbatim>\<open>co_await Awaiter\<close>: under the lock,
  \<^verbatim>\<open>if (--Data->Count != 0) co_return;\<close>, then the index is recorded and the
  handle copied; after the lock the handle is visited, and resumed unless it is
  the monostate. The result is the data and the handles resumed.
\<close>

definition Consume_completed :: "int \<Rightarrow> FData \<Rightarrow> FData \<times> FOptionalHandleVariant list" where
  "Consume_completed Idx d =
     (let d1 = d\<lparr>Count := Count d - 1\<rparr> in
      if Count d1 \<noteq> 0 then (d1, [])
      else
        let d2 = d1\<lparr>Index := Idx\<rparr> in
        (d2, case Handle d2 of monostate \<Rightarrow> [] | h \<Rightarrow> [h]))"

text \<open>
  The constructor's fold \<^verbatim>\<open>(Consume(Data, Idx++, Awaiters), ...)\<close> with
  \<^verbatim>\<open>int Idx = 0\<close>: one sub-coroutine per argument, left to right, each with the
  index it will record.
\<close>

fun Consume_each :: "int \<Rightarrow> 'a list \<Rightarrow> (int \<times> 'a) list" where
  "Consume_each Idx [] = []"
| "Consume_each Idx (Awaiter # Awaiters) = (Idx, Awaiter) # Consume_each (Idx + 1) Awaiters"

record 'a FAggregateAwaiter =
  Data :: FData
  Consumers :: "(int \<times> 'a) list"

definition FAggregateAwaiter_ctor :: "int \<Rightarrow> 'a list \<Rightarrow> 'a FAggregateAwaiter" where
  "FAggregateAwaiter_ctor c Awaiters =
     \<lparr>Data = FData_ctor c, Consumers = Consume_each 0 Awaiters\<rparr>"

text \<open>
  \<^verbatim>\<open>WhenAny\<close>: \<^verbatim>\<open>{sizeof...(Args) ? 1 : 0, Args...}\<close>, and \<^verbatim>\<open>WhenAll\<close>:
  \<^verbatim>\<open>{sizeof...(Args), Args...}\<close>.
\<close>

definition WhenAny :: "'a list \<Rightarrow> 'a FAggregateAwaiter" where
  "WhenAny Args = FAggregateAwaiter_ctor (if length Args \<noteq> 0 then 1 else 0) Args"

definition WhenAll :: "'a list \<Rightarrow> 'a FAggregateAwaiter" where
  "WhenAll Args = FAggregateAwaiter_ctor (int (length Args)) Args"

text \<open>
  Modelled from the spec: \<^verbatim>\<open>await_ready\<close>, \<^verbatim>\<open>await_suspend\<close> and
  \<^verbatim>\<open>GetResumerIndex\<close> of \<^verbatim>\<open>FAggregateAwaiter\<close> are declared in the sources and
  defined elsewhere. The spec: "readiness is checked separately before
  suspension is attempted, covering the case where all children finish
  synchronously before the parent even suspends"; a count of zero is
  "immediately ready"; the data holds "the index of the child that reached
  zero" and 'either "no continuation yet" or a resumable handle to the parent';
  "resume value for Any is the winning child's index". The awaiter is ready
  once the counter has been driven to zero, which it then stays at or below.
\<close>

definition await_ready :: "FData \<Rightarrow> bool" where
  "await_ready d = (Count d \<le> 0)"

definition Aggregate_await_suspend :: "FOptionalHandleVariant \<Rightarrow> FData \<Rightarrow> FData" where
  "Aggregate_await_suspend h d = d\<lparr>Handle := h\<rparr>"

definition GetResumerIndex :: "FData \<Rightarrow> int" where
  "GetResumerIndex d = Index d"

text \<open>\<^verbatim>\<open>FAnyAwaiter::await_resume\<close>: \<^verbatim>\<open>return GetResumerIndex();\<close>\<close>

definition FAnyAwaiter_await_resume :: "'a FAggregateAwaiter \<Rightarrow> int" where
  "FAnyAwaiter_await_resume aw = GetResumerIndex (Data aw)"

text \<open>
  What happens to an aggregate awaiter: the awaiter at some argument position
  completes, so that its sub-coroutine goes on past its \<^verbatim>\<open>co_await\<close>; or the
  parent evaluates its \<^verbatim>\<open>co_await\<close> on the aggregate with its own handle. What
  the parent sees: it goes on without suspending, or it is resumed through the
  handle it left.
\<close>

datatype event = Completed nat | ParentAwait FOptionalHandleVariant

datatype parent_wake = ReadyWithoutSuspending | ResumedThrough FOptionalHandleVariant

definition step :: "'a FAggregateAwaiter \<Rightarrow> event \<Rightarrow> 'a FAggregateAwaiter \<times> parent_wake list" where
  "step aw e =
     (case e of
        Completed k \<Rightarrow>
          if k < length (Consumers aw) then
            (case Consume_completed (fst (Consumers aw ! k)) (Data aw) of
               (d, resumed) \<Rightarrow> (aw\<lparr>Data := d\<rparr>, map ResumedThrough resumed))
          else (aw, [])
      | ParentAwait h \<Rightarrow>
          if await_ready (Data aw) then (aw, [ReadyWithoutSuspending])
          else (aw\<lparr>Data := Aggregate_await_suspend h (Data aw)\<rparr>, []))"

fun run :: "'a FAggregateAwaiter \<Rightarrow> event list \<Rightarrow> 'a FAggregateAwaiter \<times> parent_wake list" where
  "run aw [] = (aw, [])"
| "run aw (e # es) =
     (case step aw e of
        (aw1, wakes1) \<Rightarrow>
          (case run aw1 es of (aw2, wakes2) \<Rightarrow> (aw2, wakes1 @ wakes2)))"

text \<open>The argument positions in the order their awaiters completed.\<close>

fun completions :: "event list \<Rightarrow> nat list" where
  "completions [] = []"
| "completions (Completed k # es) = k # completions es"
| "completions (ParentAwait h # es) = completions es"

text \<open>
  A schedule for an aggregate of \<open>n\<close> arguments awaited by the parent with
  handle \<open>h\<close>: each awaiter completes at most once, the parent awaits at most
  once, in any order.
\<close>

definition schedule :: "nat \<Rightarrow> FOptionalHandleVariant \<Rightarrow> event list \<Rightarrow> bool" where
  "schedule n h es =
     (h \<noteq> monostate \<and> distinct es \<and>
      list_all (\<lambda>e. case e of Completed k \<Rightarrow> k < n | ParentAwait h' \<Rightarrow> h' = h) es)"

section \<open>The base class's resume\<close>

text \<open>
  Modelled from the spec: \<^verbatim>\<open>FPromise::Resume(bool)\<close>, which
  \<^verbatim>\<open>FLatentPromise::Resume\<close> ends with, is not in the sources. The spec:
  "Resume() re-enters the coroutine"; "no further resume is legal after
  destruction (resume-after-destroy is a programming error, checked
  defensively)"; the bridge "marks cancellation and relies on the eventual
  re-attach-triggered Resume to finish destruction"; "cancellation only takes
  effect at the next safe reattachment point or next controlled resume". So
  the resume of a cancelled promise destroys it, through the promise's own
  \<^verbatim>\<open>ThreadSafeDestroy\<close>, and any other resume re-enters the body, which is the
  parameter \<open>body\<close>. The sources hold no cancellation back yet ("holding off
  cancellation will be implemented in a future commit"), so the bypass argument
  changes nothing here.
\<close>

definition FPromise_Resume ::
  "bool \<Rightarrow> bool \<Rightarrow> (latent_system \<Rightarrow> check_failure + latent_system) \<Rightarrow> bool \<Rightarrow>
   latent_system \<Rightarrow> check_failure + latent_system" where
  "FPromise_Resume gt uncaught body bBypassCancellationHolds s =
     (case Frame s of
        None \<Rightarrow> Inl UseAfterDestroy
      | Some p \<Rightarrow>
          if ExtrasComplete p then Inl ResumedAfterCompletion
          else if bCanceled p then ThreadSafeDestroy gt uncaught s
          else body s)"

section \<open>The promise after final suspend\<close>

text \<open>
  The operations that can still reach a promise once \<^verbatim>\<open>final_suspend\<close> has
  run: the body has ended, so what remains are the calls made from outside it,
  by the bridge object (its tick, its two notifications, its destructor with
  \<^verbatim>\<open>Cancel\<close> and the forced resume), by a resume, by the reattachment inside a
  resume, by \<^verbatim>\<open>SetExitReason\<close>, \<^verbatim>\<open>SetCurrentAwaiter\<close> and by
  \<^verbatim>\<open>ThreadSafeDestroy\<close>. \<^verbatim>\<open>DetachFromGameThread\<close> is not among them: its only
  caller in the sources is \<^verbatim>\<open>TAwaiter::await_suspend\<close>, which runs for a
  \<^verbatim>\<open>co_await\<close> of the body. Each operation comes with the thread it is called
  on (\<open>True\<close> for the game thread).
\<close>

datatype promise_op =
    Op_Cancel
  | Op_AttachToGameThread
  | Op_SetExitReason ELatentExitReason
  | Op_NotifyActionAborted
  | Op_NotifyObjectDestroyed
  | Op_Resume bool
  | Op_SetCurrentAwaiter "FLatentAwaiter option"
  | Op_UpdateOperation
  | Op_BridgeDestructor
  | Op_ThreadSafeDestroy

text \<open>An operation of the promise alone, applied to the promise of the frame.\<close>

definition on_frame ::
  "(FLatentPromise \<Rightarrow> check_failure + FLatentPromise) \<Rightarrow> latent_system \<Rightarrow>
   check_failure + latent_system" where
  "on_frame f s =
     (case Frame s of
        None \<Rightarrow> Inl UseAfterDestroy
      | Some p \<Rightarrow> (case f p of Inl e \<Rightarrow> Inl e | Inr p' \<Rightarrow> Inr (s\<lparr>Frame := Some p'\<rparr>)))"

text \<open>A notification of the bridge object, which only reaches the promise when
  the back pointer is set.\<close>

definition on_bridge ::
  "bool \<Rightarrow> (FPendingLatentCoroutine \<Rightarrow> FLatentPromise \<Rightarrow> check_failure + FLatentPromise) \<Rightarrow>
   latent_system \<Rightarrow> check_failure + latent_system" where
  "on_bridge gt f s =
     (case Action s of
        None \<Rightarrow> Inl UseAfterDestroy
      | Some b \<Rightarrow>
          if Promise b then on_frame (f b) s
          else if gt then Inr s else Inl NotInGameThread)"

definition perform ::
  "bool \<Rightarrow> (FLatentAwaiter \<Rightarrow> bool) \<Rightarrow>
   (bool \<Rightarrow> latent_system \<Rightarrow> check_failure + latent_system) \<Rightarrow>
   bool \<times> promise_op \<Rightarrow> latent_system \<Rightarrow> check_failure + latent_system" where
  "perform uncaught ShouldResume base call s =
     (case call of (gt, op) \<Rightarrow>
        (case op of
           Op_Cancel \<Rightarrow> on_frame (\<lambda>p. Inr (Cancel p)) s
         | Op_AttachToGameThread \<Rightarrow> on_frame (AttachToGameThread gt) s
         | Op_SetExitReason Reason \<Rightarrow> on_frame (SetExitReason Reason) s
         | Op_NotifyActionAborted \<Rightarrow> on_bridge gt (NotifyActionAborted gt) s
         | Op_NotifyObjectDestroyed \<Rightarrow> on_bridge gt (NotifyObjectDestroyed gt) s
         | Op_Resume bBypassCancellationHolds \<Rightarrow> Resume gt bBypassCancellationHolds base s
         | Op_SetCurrentAwaiter Awaiter \<Rightarrow> SetCurrentAwaiter gt Awaiter s
         | Op_UpdateOperation \<Rightarrow>
             (case UpdateOperation gt ShouldResume base s of
                Inl e \<Rightarrow> Inl e
              | Inr (s', calls) \<Rightarrow> Inr s')
         | Op_BridgeDestructor \<Rightarrow> FPendingLatentCoroutine_dtor gt base s
         | Op_ThreadSafeDestroy \<Rightarrow> ThreadSafeDestroy gt uncaught s))"

fun perform_all ::
  "bool \<Rightarrow> (FLatentAwaiter \<Rightarrow> bool) \<Rightarrow>
   (bool \<Rightarrow> latent_system \<Rightarrow> check_failure + latent_system) \<Rightarrow>
   (bool \<times> promise_op) list \<Rightarrow> latent_system \<Rightarrow> check_failure + latent_system" where
  "perform_all uncaught ShouldResume base [] s = Inr s"
| "perform_all uncaught ShouldResume base (call # calls) s =
     (case perform uncaught ShouldResume base call s of
        Inl e \<Rightarrow> Inl e
      | Inr s' \<Rightarrow> perform_all uncaught ShouldResume base calls s')"

text \<open>
  The flags of the frame, as long as there is one, are exactly
  \<^verbatim>\<open>LF_InFinalSuspend\<close>.
\<close>

definition final_or_gone :: "latent_system \<Rightarrow> bool" where
  "final_or_gone s =
     (case Frame s of None \<Rightarrow> True | Some p \<Rightarrow> LatentFlags p = LF_InFinalSuspend)"

section \<open>Verified properties\<close>

subsection \<open>Exit reasons are recorded once\<close>

lemma apply_request_live:
  "Promise b \<Longrightarrow> apply_request b q p = SetExitReason (requested_reason q) p"
  by (cases q) (simp_all add: NotifyActionAborted_def NotifyObjectDestroyed_def)

lemma apply_requests_recorded:
  "Promise b \<Longrightarrow> ExitReason p \<noteq> Normal \<Longrightarrow> apply_requests b qs p = Inr p' \<Longrightarrow> qs = []"
  by (cases qs) (simp_all add: apply_request_live SetExitReason_def)

lemma apply_requests_once:
  "Promise b \<Longrightarrow> ExitReason p = Normal \<Longrightarrow> apply_requests b qs p = Inr p' \<Longrightarrow>
   length (non_normal qs) \<le> 1 \<and>
   ExitReason p' = (case non_normal qs of [] \<Rightarrow> Normal | q # _ \<Rightarrow> requested_reason q)"
proof (induction qs arbitrary: p)
  case Nil
  then show ?case by (simp add: non_normal_def)
next
  case (Cons q qs)
  let ?p1 = "p\<lparr>ExitReason := requested_reason q\<rparr>"
  from Cons.prems have step: "apply_requests b qs ?p1 = Inr p'"
    by (simp add: apply_request_live SetExitReason_def)
  show ?case
  proof (cases "requested_reason q = Normal")
    case True
    with Cons.IH [of ?p1] Cons.prems(1) step show ?thesis
      by (simp add: non_normal_def)
  next
    case False
    with apply_requests_recorded [of b ?p1 qs p'] Cons.prems(1) step
    have "qs = []" by simp
    with False step show ?thesis by (auto simp add: non_normal_def)
  qed
qed

text \<open>
  C9. The recorded exit reason is write-once. From a promise whose exit
  reason is still \<open>Normal\<close>, any run of \<open>SetExitReason\<close> calls and bridge
  notifications that passes every assertion contains at most one request for
  a non-\<open>Normal\<close> reason, and that request is what ends up recorded; once a
  non-\<open>Normal\<close> reason is recorded, every further \<open>SetExitReason\<close> call, and so
  each of the bridge's notifications, fails the assertion.
\<close>

theorem exit_reason_write_once:
  "Promise b \<Longrightarrow> ExitReason p = Normal \<Longrightarrow> apply_requests b qs p = Inr p' \<Longrightarrow>
   length (non_normal qs) \<le> 1 \<and>
   ExitReason p' = (case non_normal qs of [] \<Rightarrow> Normal | q # _ \<Rightarrow> requested_reason q) \<and>
   (ExitReason p' \<noteq> Normal \<longrightarrow>
      SetExitReason r p' = Inl ConflictingExitReasons \<and>
      NotifyActionAborted True b p' = Inl ConflictingExitReasons \<and>
      NotifyObjectDestroyed True b p' = Inl ConflictingExitReasons)"
  using apply_requests_once [of b p qs p']
  by (simp add: SetExitReason_def NotifyActionAborted_def NotifyObjectDestroyed_def)

theorem exit_reason_write_once_witness:
  "Promise sample_bridge \<and> ExitReason sample_promise = Normal \<and>
   apply_requests sample_bridge [DirectSet Normal, ObjectDestroyedNotice] sample_promise
     = Inr (sample_promise\<lparr>ExitReason := ObjectDestroyed\<rparr>) \<and>
   length (non_normal [DirectSet Normal, ObjectDestroyedNotice]) \<le> 1 \<and>
   SetExitReason ActionAborted (sample_promise\<lparr>ExitReason := ObjectDestroyed\<rparr>)
     = Inl ConflictingExitReasons \<and>
   NotifyActionAborted True sample_bridge (sample_promise\<lparr>ExitReason := ObjectDestroyed\<rparr>)
     = Inl ConflictingExitReasons"
  using exit_reason_write_once [of sample_bridge sample_promise
      "[DirectSet Normal, ObjectDestroyedNotice]"
      "sample_promise\<lparr>ExitReason := ObjectDestroyed\<rparr>" ActionAborted]
  by (simp add: sample_bridge_def sample_promise_def SetExitReason_def
      NotifyObjectDestroyed_def non_normal_def)

subsection \<open>Flag arithmetic\<close>


lemma bFinalSuspend_bit: "bFinalSuspend f = bit f 1"
  using and_exp_eq_0_iff_not_bit [of f 1]
  by (simp add: bFinalSuspend_def LF_InFinalSuspend_def)



lemma bFinalSuspend_attach: "bFinalSuspend (f AND NOT LF_Detached) = bFinalSuspend f"
  by (simp add: bFinalSuspend_bit bit_simps LF_Detached_def)

lemma bFinalSuspend_detach: "bFinalSuspend (f OR LF_Detached) = bFinalSuspend f"
  by (simp add: bFinalSuspend_bit bit_simps LF_Detached_def)

lemma final_flag_alone:
  "bFinalSuspend LF_InFinalSuspend" "\<not> bDetached LF_InFinalSuspend"
  "LF_InFinalSuspend \<noteq> 0"
  "LF_InFinalSuspend AND NOT LF_Detached = LF_InFinalSuspend"
  by (simp_all add: bFinalSuspend_def bDetached_def LF_Detached_def LF_InFinalSuspend_def)

subsection \<open>Final suspend\<close>

lemma on_frame_keeps_final:
  "final_or_gone s \<Longrightarrow> on_frame f s = Inr s' \<Longrightarrow>
   (\<And>p p'. f p = Inr p' \<Longrightarrow> LatentFlags p = LF_InFinalSuspend \<Longrightarrow>
      LatentFlags p' = LF_InFinalSuspend) \<Longrightarrow>
   final_or_gone s'"
  by (auto simp add: on_frame_def final_or_gone_def split: option.splits sum.splits)

lemma Attach_keeps_final:
  "AttachToGameThread gt p = Inr p' \<Longrightarrow> LatentFlags p = LF_InFinalSuspend \<Longrightarrow>
   LatentFlags p' = LF_InFinalSuspend"
  by (auto simp add: AttachToGameThread_def final_flag_alone split: if_splits)

lemma SetExitReason_keeps_flags:
  "SetExitReason r p = Inr p' \<Longrightarrow> LatentFlags p' = LatentFlags p"
  by (auto simp add: SetExitReason_def split: if_splits)

lemma Notify_keeps_flags:
  "NotifyActionAborted gt b p = Inr p' \<Longrightarrow> LatentFlags p' = LatentFlags p"
  "NotifyObjectDestroyed gt b p = Inr p' \<Longrightarrow> LatentFlags p' = LatentFlags p"
  by (auto simp add: NotifyActionAborted_def NotifyObjectDestroyed_def
      dest: SetExitReason_keeps_flags split: if_splits)

lemma on_bridge_keeps_final:
  "final_or_gone s \<Longrightarrow> on_bridge gt f s = Inr s' \<Longrightarrow>
   (\<And>b p p'. f b p = Inr p' \<Longrightarrow> LatentFlags p' = LatentFlags p) \<Longrightarrow>
   final_or_gone s'"
  by (auto simp add: on_bridge_def split: option.splits if_splits
      elim!: on_frame_keeps_final)

lemma Resume_keeps_final:
  assumes base: "\<forall>b x x'. final_or_gone x \<longrightarrow> base b x = Inr x' \<longrightarrow> final_or_gone x'"
    and "final_or_gone s" and "Resume gt bypass base s = Inr s'"
  shows "final_or_gone s'"
proof (cases "Frame s")
  case None
  with assms(3) show ?thesis by (simp add: Resume_def)
next
  case (Some p)
  with assms(2) have flags: "LatentFlags p = LF_InFinalSuspend"
    by (simp add: final_or_gone_def)
  then have "\<not> bDetached (LatentFlags p)" by (simp add: final_flag_alone)
  with Some assms(3) have "s' = s \<or> base bypass s = Inr s'"
    by (auto simp add: Resume_def split: if_splits)
  with assms(2) base show ?thesis by blast
qed

lemma ThreadSafeDestroy_keeps_final:
  "final_or_gone s \<Longrightarrow> ThreadSafeDestroy gt u s = Inr s' \<Longrightarrow> final_or_gone s'"
  by (auto simp add: ThreadSafeDestroy_def Handle_destroy_def FLatentPromise_dtor_def
      Pending_def Detach_def Let_def final_or_gone_def
      split: option.splits if_splits sum.splits)

lemma SetCurrentAwaiter_keeps_final:
  "final_or_gone s \<Longrightarrow> SetCurrentAwaiter gt a s = Inr s' \<Longrightarrow> final_or_gone s'"
  by (auto simp add: SetCurrentAwaiter_def Pending_SetCurrentAwaiter_def final_or_gone_def
      split: option.splits if_splits sum.splits)

lemma UpdateOperation_keeps_final:
  assumes base: "\<forall>b x x'. final_or_gone x \<longrightarrow> base b x = Inr x' \<longrightarrow> final_or_gone x'"
    and final: "final_or_gone s" and tick: "UpdateOperation gt SR base s = Inr (s', calls)"
  shows "final_or_gone s'"
proof -
  from tick obtain b where b: "Action s = Some b" and gt: gt
    by (auto simp add: UpdateOperation_def split: if_splits option.splits)
  show ?thesis
  proof (cases "Promise b")
    case False
    with tick b gt final show ?thesis by (simp add: UpdateOperation_def)
  next
    case True
    let ?cleared = "s\<lparr>Action := Some (b\<lparr>CurrentAwaiter := None\<rparr>)\<rparr>"
    from final have cleared: "final_or_gone ?cleared" by (simp add: final_or_gone_def)
    from tick b gt True have "s' = s \<or> Resume gt False base ?cleared = Inr s'"
      by (auto simp add: UpdateOperation_def split: option.splits if_splits sum.splits)
    with final cleared Resume_keeps_final [OF base] show ?thesis by blast
  qed
qed

lemma dtor_keeps_final:
  assumes base: "\<forall>b x x'. final_or_gone x \<longrightarrow> base b x = Inr x' \<longrightarrow> final_or_gone x'"
    and final: "final_or_gone s" and dtor: "FPendingLatentCoroutine_dtor gt base s = Inr s'"
  shows "final_or_gone s'"
proof -
  from dtor obtain b where b: "Action s = Some b" and gt: gt
    by (auto simp add: FPendingLatentCoroutine_dtor_def split: if_splits option.splits)
  show ?thesis
  proof (cases "Promise b")
    case False
    with dtor b gt final show ?thesis
      by (auto simp add: FPendingLatentCoroutine_dtor_def final_or_gone_def)
  next
    case True
    with dtor b gt obtain p s1 where p: "Frame s = Some p"
      and resumed: "Resume gt True base (s\<lparr>Frame := Some (Cancel p)\<rparr>) = Inr s1"
      and s': "s' = s1\<lparr>Action := None\<rparr>"
      by (auto simp add: FPendingLatentCoroutine_dtor_def split: option.splits sum.splits)
    from final p have "final_or_gone (s\<lparr>Frame := Some (Cancel p)\<rparr>)"
      by (simp add: final_or_gone_def Cancel_def)
    with resumed Resume_keeps_final [OF base] have "final_or_gone s1" by blast
    with s' show ?thesis by (simp add: final_or_gone_def)
  qed
qed

lemma perform_keeps_final:
  assumes base: "\<forall>b x x'. final_or_gone x \<longrightarrow> base b x = Inr x' \<longrightarrow> final_or_gone x'"
    and final: "final_or_gone s" and step: "perform u SR base call s = Inr s'"
  shows "final_or_gone s'"
proof -
  obtain gt op where call: "call = (gt, op)" by (cases call)
  show ?thesis
  proof (cases op)
    case Op_Cancel
    with step call final show ?thesis
      by (auto simp add: perform_def Cancel_def elim!: on_frame_keeps_final)
  next
    case Op_AttachToGameThread
    with step call final show ?thesis
      by (auto simp add: perform_def elim!: on_frame_keeps_final dest: Attach_keeps_final)
  next
    case (Op_SetExitReason r)
    with step call final show ?thesis
      by (auto simp add: perform_def elim!: on_frame_keeps_final
          dest: SetExitReason_keeps_flags)
  next
    case Op_NotifyActionAborted
    with step call final show ?thesis
      by (auto simp add: perform_def elim!: on_bridge_keeps_final dest: Notify_keeps_flags)
  next
    case Op_NotifyObjectDestroyed
    with step call final show ?thesis
      by (auto simp add: perform_def elim!: on_bridge_keeps_final dest: Notify_keeps_flags)
  next
    case (Op_Resume bypass)
    with step call have "Resume gt bypass base s = Inr s'" by (simp add: perform_def)
    with final Resume_keeps_final [OF base] show ?thesis by blast
  next
    case (Op_SetCurrentAwaiter a)
    with step call final show ?thesis
      by (auto simp add: perform_def dest: SetCurrentAwaiter_keeps_final)
  next
    case Op_UpdateOperation
    with step call obtain calls where "UpdateOperation gt SR base s = Inr (s', calls)"
      by (auto simp add: perform_def split: sum.splits)
    with final UpdateOperation_keeps_final [OF base] show ?thesis by blast
  next
    case Op_BridgeDestructor
    with step call have "FPendingLatentCoroutine_dtor gt base s = Inr s'"
      by (simp add: perform_def)
    with final dtor_keeps_final [OF base] show ?thesis by blast
  next
    case Op_ThreadSafeDestroy
    with step call final show ?thesis
      by (auto simp add: perform_def dest: ThreadSafeDestroy_keeps_final)
  qed
qed

lemma perform_all_keeps_final:
  assumes base: "\<forall>b x x'. final_or_gone x \<longrightarrow> base b x = Inr x' \<longrightarrow> final_or_gone x'"
  shows "final_or_gone s \<Longrightarrow> perform_all u SR base calls s = Inr s' \<Longrightarrow> final_or_gone s'"
proof (induction calls arbitrary: s)
  case Nil
  then show ?case by simp
next
  case (Cons call calls)
  from Cons.prems(2) obtain s1 where first: "perform u SR base call s = Inr s1"
    and rest: "perform_all u SR base calls s1 = Inr s'"
    by (auto split: sum.splits)
  from perform_keeps_final [OF base Cons.prems(1) first] have "final_or_gone s1" by simp
  with Cons.IH rest show ?case by blast
qed

lemma Respond_in_final_suspend:
  "LatentFlags p = LF_InFinalSuspend \<Longrightarrow> \<not> ExtrasComplete p \<Longrightarrow>
   Respond True p Info =
     Inr [DoneIf True, TriggerLink (ExecutionFunction Info) (Linkage Info) (CallbackTarget Info)]"
  by (simp add: Respond_def final_flag_alone)

text \<open>
  C6. \<open>final_suspend\<close> sets the flags to exactly \<open>InFinalSuspend\<close> whatever
  they were: \<open>Detached\<close> is off and \<open>InFinalSuspend\<close> is on. From then on no
  operation that can still reach the promise changes them: after any sequence
  of such operations, on any threads, that passes every assertion, the frame
  is either destroyed or still has exactly the flags \<open>InFinalSuspend\<close>, and
  a tick still reports the action done and triggers the link. This is for any
  base-class resume that itself writes no flag of a promise in final suspend.
  \<open>Resume\<close> in particular performs no reattachment and goes straight to the
  base class, and \<open>SetCurrentAwaiter\<close> fails its assertion.
\<close>

theorem final_suspend_is_terminal:
  "(\<forall>b x x'. final_or_gone x \<longrightarrow> base b x = Inr x' \<longrightarrow> final_or_gone x') \<Longrightarrow>
   LatentFlags (final_suspend p) = LF_InFinalSuspend \<and>
   \<not> bDetached (LatentFlags (final_suspend p)) \<and>
   bFinalSuspend (LatentFlags (final_suspend p)) \<and>
   (\<forall>s' p'. perform_all u SR base calls (s\<lparr>Frame := Some (final_suspend p)\<rparr>) = Inr s' \<longrightarrow>
      Frame s' = Some p' \<longrightarrow>
      LatentFlags p' = LF_InFinalSuspend \<and>
      (\<not> ExtrasComplete p' \<longrightarrow>
         Respond True p' Info =
           Inr [DoneIf True,
                TriggerLink (ExecutionFunction Info) (Linkage Info) (CallbackTarget Info)])) \<and>
   Resume gt bypass base (s\<lparr>Frame := Some (final_suspend p)\<rparr>) =
     (if bypass \<and> \<not> (gt \<and> bCanceled p) then Inl WrongBypassState
      else base bypass (s\<lparr>Frame := Some (final_suspend p)\<rparr>)) \<and>
   SetCurrentAwaiter True a (s\<lparr>Frame := Some (final_suspend p)\<rparr>) = Inl UnexpectedLatentState"
proof -
  assume base: "\<forall>b x x'. final_or_gone x \<longrightarrow> base b x = Inr x' \<longrightarrow> final_or_gone x'"
  let ?s = "s\<lparr>Frame := Some (final_suspend p)\<rparr>"
  have start: "final_or_gone ?s"
    by (simp add: final_or_gone_def final_suspend_def)
  have later: "\<forall>s' p'. perform_all u SR base calls ?s = Inr s' \<longrightarrow> Frame s' = Some p' \<longrightarrow>
      LatentFlags p' = LF_InFinalSuspend \<and>
      (\<not> ExtrasComplete p' \<longrightarrow>
         Respond True p' Info =
           Inr [DoneIf True,
                TriggerLink (ExecutionFunction Info) (Linkage Info) (CallbackTarget Info)])"
  proof (intro allI impI)
    fix s' p'
    assume run: "perform_all u SR base calls ?s = Inr s'" and frame: "Frame s' = Some p'"
    from perform_all_keeps_final [OF base start run] frame
    have "LatentFlags p' = LF_InFinalSuspend" by (simp add: final_or_gone_def)
    then show "LatentFlags p' = LF_InFinalSuspend \<and>
      (\<not> ExtrasComplete p' \<longrightarrow>
         Respond True p' Info =
           Inr [DoneIf True,
                TriggerLink (ExecutionFunction Info) (Linkage Info) (CallbackTarget Info)])"
      using Respond_in_final_suspend by blast
  qed
  have own: "LatentFlags (final_suspend p) = LF_InFinalSuspend \<and>
      \<not> bDetached (LatentFlags (final_suspend p)) \<and>
      bFinalSuspend (LatentFlags (final_suspend p)) \<and>
      Resume gt bypass base ?s =
        (if bypass \<and> \<not> (gt \<and> bCanceled p) then Inl WrongBypassState
         else base bypass ?s) \<and>
      SetCurrentAwaiter True a ?s = Inl UnexpectedLatentState"
    by (auto simp add: final_suspend_def final_flag_alone Resume_def SetCurrentAwaiter_def)
  from later own show ?thesis by blast
qed

theorem final_suspend_is_terminal_witness:
  "LatentFlags (final_suspend (DetachFromGameThread sample_promise)) = 2 \<and>
   perform_all False (\<lambda>a. True) (FPromise_Resume True False Inr)
       [(True, Op_NotifyObjectDestroyed), (True, Op_UpdateOperation)]
       (sample_system\<lparr>Frame := Some (final_suspend (DetachFromGameThread sample_promise))\<rparr>)
     = Inr (sample_system
              \<lparr>Frame := Some ((final_suspend (DetachFromGameThread sample_promise))
                               \<lparr>ExitReason := ObjectDestroyed\<rparr>)\<rparr>) \<and>
   perform_all False (\<lambda>a. True) (FPromise_Resume True False Inr)
       [(True, Op_NotifyObjectDestroyed), (True, Op_UpdateOperation), (True, Op_BridgeDestructor)]
       (sample_system\<lparr>Frame := Some (final_suspend (DetachFromGameThread sample_promise))\<rparr>)
     = Inr (sample_system\<lparr>Frame := None, Action := None, ExitReasonSeen := [ObjectDestroyed]\<rparr>)"
proof -
  have base: "\<forall>b x x'. final_or_gone x \<longrightarrow> FPromise_Resume True False Inr b x = Inr x' \<longrightarrow>
      final_or_gone x'"
    by (auto simp add: FPromise_Resume_def split: option.splits if_splits
        dest: ThreadSafeDestroy_keeps_final)
  note terminal = final_suspend_is_terminal [OF base,
      of "DetachFromGameThread sample_promise" False "\<lambda>a. True"
         "[(True, Op_NotifyObjectDestroyed), (True, Op_UpdateOperation)]" sample_system
         sample_info True False None]
  have flags: "LatentFlags (final_suspend (DetachFromGameThread sample_promise)) = 2"
    using terminal by (simp add: LF_InFinalSuspend_def)
  have ticked: "perform_all False (\<lambda>a. True) (FPromise_Resume True False Inr)
       [(True, Op_NotifyObjectDestroyed), (True, Op_UpdateOperation)]
       (sample_system\<lparr>Frame := Some (final_suspend (DetachFromGameThread sample_promise))\<rparr>)
     = Inr (sample_system
              \<lparr>Frame := Some ((final_suspend (DetachFromGameThread sample_promise))
                               \<lparr>ExitReason := ObjectDestroyed\<rparr>)\<rparr>)"
    by (simp add: perform_def on_bridge_def on_frame_def NotifyObjectDestroyed_def
        SetExitReason_def UpdateOperation_def Respond_def final_suspend_def
        DetachFromGameThread_def sample_system_def sample_bridge_def sample_promise_def
        bDetached_def bFinalSuspend_def LF_Detached_def LF_InFinalSuspend_def)
  have destroyed: "perform_all False (\<lambda>a. True) (FPromise_Resume True False Inr)
       [(True, Op_NotifyObjectDestroyed), (True, Op_UpdateOperation), (True, Op_BridgeDestructor)]
       (sample_system\<lparr>Frame := Some (final_suspend (DetachFromGameThread sample_promise))\<rparr>)
     = Inr (sample_system\<lparr>Frame := None, Action := None, ExitReasonSeen := [ObjectDestroyed]\<rparr>)"
    by (simp add: perform_def on_bridge_def on_frame_def NotifyObjectDestroyed_def
        SetExitReason_def UpdateOperation_def Respond_def final_suspend_def
        DetachFromGameThread_def sample_system_def sample_bridge_def sample_promise_def
        bDetached_def bFinalSuspend_def LF_Detached_def LF_InFinalSuspend_def
        FPendingLatentCoroutine_dtor_def Resume_def Cancel_def FPromise_Resume_def
        ThreadSafeDestroy_def Handle_destroy_def FLatentPromise_dtor_def)
  from flags ticked destroyed show ?thesis by blast
qed

subsection \<open>Destruction on the game thread\<close>

lemma Handle_destroy_resets:
  "Handle_destroy gt u s = Inr s' \<Longrightarrow> GLatentExitReason s' = Normal"
  by (auto simp add: Handle_destroy_def FLatentPromise_dtor_def Pending_def Let_def Detach_def
      split: option.splits if_splits sum.splits)

text \<open>
  C7. Off the game thread \<open>ThreadSafeDestroy\<close> only posts itself to the game
  thread: the frame, the global and everything else stay as they are, and the
  posted task, once the game thread runs it, is the destroying call. On the
  game thread it writes the promise's exit reason into the global (the value in
  place while the frame is destroyed), destroys the frame, and passes its
  closing assertion: whenever the handle's destruction returns, the promise's
  destructor has reset the global to \<open>Normal\<close>, so the assertion never fails.
\<close>

theorem ThreadSafeDestroy_restores_global:
  "ThreadSafeDestroy False u s
     = Inr (s\<lparr>GameThreadTasks := GameThreadTasks s @ [ThreadSafeDestroyTask]\<rparr>) \<and>
   (GameThreadTasks s = [] \<longrightarrow>
      run_game_thread_task u (s\<lparr>GameThreadTasks := GameThreadTasks s @ [ThreadSafeDestroyTask]\<rparr>)
        = ThreadSafeDestroy True u s) \<and>
   (Frame s = Some p \<and>
      (u \<longrightarrow> PendingLatentCoroutine p \<and> (\<exists>b. Action s = Some b \<and> Promise b)) \<longrightarrow>
      (\<exists>s'. ThreadSafeDestroy True u s = Inr s' \<and> Frame s' = None \<and>
            GLatentExitReason s' = Normal \<and>
            ExitReasonSeen s' = ExitReasonSeen s @ [ExitReason p])) \<and>
   (\<forall>s'. Handle_destroy gt u s = Inr s' \<longrightarrow> GLatentExitReason s' = Normal) \<and>
   ThreadSafeDestroy gt u s \<noteq> Inl ExitReasonNotRestored"
proof -
  have posted: "ThreadSafeDestroy False u s
      = Inr (s\<lparr>GameThreadTasks := GameThreadTasks s @ [ThreadSafeDestroyTask]\<rparr>)"
    by (simp add: ThreadSafeDestroy_def)
  have later: "GameThreadTasks s = [] \<longrightarrow>
      run_game_thread_task u (s\<lparr>GameThreadTasks := GameThreadTasks s @ [ThreadSafeDestroyTask]\<rparr>)
        = ThreadSafeDestroy True u s"
  proof
    assume empty: "GameThreadTasks s = []"
    then have same: "s\<lparr>GameThreadTasks := []\<rparr> = s" by (cases s) simp
    from empty have "run_game_thread_task u
        (s\<lparr>GameThreadTasks := GameThreadTasks s @ [ThreadSafeDestroyTask]\<rparr>)
        = ThreadSafeDestroy True u (s\<lparr>GameThreadTasks := []\<rparr>)"
      by (simp add: run_game_thread_task_def)
    then show "run_game_thread_task u
        (s\<lparr>GameThreadTasks := GameThreadTasks s @ [ThreadSafeDestroyTask]\<rparr>)
        = ThreadSafeDestroy True u s"
      by (simp only: same)
  qed
  have destroyed: "Frame s = Some p \<and>
      (u \<longrightarrow> PendingLatentCoroutine p \<and> (\<exists>b. Action s = Some b \<and> Promise b)) \<longrightarrow>
      (\<exists>s'. ThreadSafeDestroy True u s = Inr s' \<and> Frame s' = None \<and>
            GLatentExitReason s' = Normal \<and>
            ExitReasonSeen s' = ExitReasonSeen s @ [ExitReason p])"
    by (auto simp add: ThreadSafeDestroy_def Handle_destroy_def FLatentPromise_dtor_def
        Pending_def Let_def Detach_def)
  have reset: "\<forall>s'. Handle_destroy gt u s = Inr s' \<longrightarrow> GLatentExitReason s' = Normal"
    using Handle_destroy_resets by blast
  have passes: "ThreadSafeDestroy gt u s \<noteq> Inl ExitReasonNotRestored"
    by (auto simp add: ThreadSafeDestroy_def Handle_destroy_def FLatentPromise_dtor_def
        Pending_def Let_def Detach_def split: option.splits if_splits sum.splits)
  from posted later destroyed reset passes show ?thesis by blast
qed

theorem ThreadSafeDestroy_restores_global_witness:
  "Frame (sample_system\<lparr>Frame := Some (sample_promise\<lparr>ExitReason := ActionAborted\<rparr>)\<rparr>)
     = Some (sample_promise\<lparr>ExitReason := ActionAborted\<rparr>) \<and>
   ThreadSafeDestroy True False
       (sample_system\<lparr>Frame := Some (sample_promise\<lparr>ExitReason := ActionAborted\<rparr>)\<rparr>)
     = Inr (sample_system\<lparr>Frame := None, ExitReasonSeen := [ActionAborted]\<rparr>) \<and>
   ThreadSafeDestroy False False sample_system
     = Inr (sample_system\<lparr>GameThreadTasks := [ThreadSafeDestroyTask]\<rparr>) \<and>
   run_game_thread_task False (sample_system\<lparr>GameThreadTasks := [ThreadSafeDestroyTask]\<rparr>)
     = Inr (sample_system\<lparr>Frame := None, ExitReasonSeen := [Normal]\<rparr>)"
  using ThreadSafeDestroy_restores_global
    [of False "sample_system\<lparr>Frame := Some (sample_promise\<lparr>ExitReason := ActionAborted\<rparr>)\<rparr>"
        "sample_promise\<lparr>ExitReason := ActionAborted\<rparr>" True]
    ThreadSafeDestroy_restores_global [of False sample_system sample_promise True]
  by (simp add: sample_system_def sample_promise_def ThreadSafeDestroy_def Handle_destroy_def
      FLatentPromise_dtor_def run_game_thread_task_def)

subsection \<open>Cancellation while detached\<close>


lemma Respond_DoneIf:
  "Respond True p Info = Inr calls \<Longrightarrow>
   DoneIf True \<in> set calls \<longleftrightarrow>
     bCanceled p \<and> \<not> bDetached (LatentFlags p) \<or> bFinalSuspend (LatentFlags p)"
  by (auto simp add: Respond_def Let_def split: if_splits)

lemma Respond_TriggerLink:
  "Respond True p Info = Inr calls \<Longrightarrow>
   TriggerLink (ExecutionFunction Info) (Linkage Info) (CallbackTarget Info) \<in> set calls
     \<longleftrightarrow> bFinalSuspend (LatentFlags p)"
  by (auto simp add: Respond_def Let_def split: if_splits)

lemma Respond_calls:
  "Respond True p Info = Inr calls \<Longrightarrow>
   set calls \<subseteq>
     {DoneIf True, TriggerLink (ExecutionFunction Info) (Linkage Info) (CallbackTarget Info)}"
  by (auto simp add: Respond_def Let_def split: if_splits)

lemma Respond_returns:
  "\<not> ExtrasComplete p \<Longrightarrow> \<exists>calls. Respond True p Info = Inr calls"
  by (simp add: Respond_def Let_def)




subsection \<open>The per-frame tick\<close>

text \<open>
  C5. A tick of the bridge on the game thread, with its back pointer set. When
  the active awaiter reports ready, the promise is resumed on the state in
  which \<open>CurrentAwaiter\<close> has already been cleared; otherwise nothing is
  resumed. Let \<open>s1\<close> be the state after that step, with the promise alive, not
  complete, and the bridge in place. Then the tick returns \<open>s1\<close> with a
  response computed from \<open>s1\<close>: it marks the action done exactly when the
  promise is cancelled and attached or in final suspend, it triggers the link
  with the bridge's \<open>ExecutionFunction\<close>, \<open>Linkage\<close> and \<open>CallbackTarget\<close>
  exactly when the promise is in final suspend, and it makes no other call.
\<close>

theorem UpdateOperation_tick:
  "Action s = Some b \<Longrightarrow> Promise b \<Longrightarrow>
   (case CurrentAwaiter b of
      None \<Rightarrow> Inr s
    | Some a \<Rightarrow>
        if ShouldResume a
        then Resume True False base (s\<lparr>Action := Some (b\<lparr>CurrentAwaiter := None\<rparr>)\<rparr>)
        else Inr s) = Inr s1 \<Longrightarrow>
   Frame s1 = Some p1 \<Longrightarrow> Action s1 = Some b1 \<Longrightarrow> \<not> ExtrasComplete p1 \<Longrightarrow>
   \<exists>calls.
     UpdateOperation True ShouldResume base s = Inr (s1, calls) \<and>
     (DoneIf True \<in> set calls \<longleftrightarrow>
        bCanceled p1 \<and> \<not> bDetached (LatentFlags p1) \<or> bFinalSuspend (LatentFlags p1)) \<and>
     (TriggerLink (ExecutionFunction (LatentInfo b1)) (Linkage (LatentInfo b1))
          (CallbackTarget (LatentInfo b1)) \<in> set calls
        \<longleftrightarrow> bFinalSuspend (LatentFlags p1)) \<and>
     set calls \<subseteq>
       {DoneIf True,
        TriggerLink (ExecutionFunction (LatentInfo b1)) (Linkage (LatentInfo b1))
          (CallbackTarget (LatentInfo b1))}"
proof -
  assume bridge: "Action s = Some b" "Promise b"
    and step: "(case CurrentAwaiter b of
        None \<Rightarrow> Inr s
      | Some a \<Rightarrow>
          if ShouldResume a
          then Resume True False base (s\<lparr>Action := Some (b\<lparr>CurrentAwaiter := None\<rparr>)\<rparr>)
          else Inr s) = Inr s1"
    and after: "Frame s1 = Some p1" "Action s1 = Some b1" "\<not> ExtrasComplete p1"
  from after(3) obtain calls where calls: "Respond True p1 (LatentInfo b1) = Inr calls"
    using Respond_returns by blast
  from bridge step after(1,2) calls
  have "UpdateOperation True ShouldResume base s = Inr (s1, calls)"
    by (simp add: UpdateOperation_def)
  with Respond_DoneIf [OF calls] Respond_TriggerLink [OF calls] Respond_calls [OF calls]
  show ?thesis by blast
qed

theorem UpdateOperation_tick_witness:
  "Action (sample_system\<lparr>Action := Some (sample_bridge\<lparr>CurrentAwaiter := Some 5\<rparr>)\<rparr>)
     = Some (sample_bridge\<lparr>CurrentAwaiter := Some 5\<rparr>) \<and>
   Promise (sample_bridge\<lparr>CurrentAwaiter := Some 5\<rparr>) \<and>
   Resume True False (\<lambda>_ s. Inr (s\<lparr>Frame := Some (final_suspend sample_promise)\<rparr>)) sample_system
     = Inr (sample_system\<lparr>Frame := Some (final_suspend sample_promise)\<rparr>) \<and>
   \<not> ExtrasComplete (final_suspend sample_promise) \<and>
   UpdateOperation True (\<lambda>a. a = 5)
       (\<lambda>_ s. Inr (s\<lparr>Frame := Some (final_suspend sample_promise)\<rparr>))
       (sample_system\<lparr>Action := Some (sample_bridge\<lparr>CurrentAwaiter := Some 5\<rparr>)\<rparr>)
     = Inr (sample_system\<lparr>Frame := Some (final_suspend sample_promise)\<rparr>,
            [DoneIf True, TriggerLink ''Continue'' 3 (Some sample_target)])"
  using UpdateOperation_tick
    [of "sample_system\<lparr>Action := Some (sample_bridge\<lparr>CurrentAwaiter := Some 5\<rparr>)\<rparr>"
        "sample_bridge\<lparr>CurrentAwaiter := Some 5\<rparr>"
        "\<lambda>a. a = 5"
        "\<lambda>_ s. Inr (s\<lparr>Frame := Some (final_suspend sample_promise)\<rparr>)"
        "sample_system\<lparr>Frame := Some (final_suspend sample_promise)\<rparr>"
        "final_suspend sample_promise" sample_bridge]
  by (simp add: UpdateOperation_def Resume_def Respond_def sample_system_def sample_bridge_def
      sample_promise_def sample_info_def final_suspend_def bDetached_def bFinalSuspend_def
      LF_Detached_def LF_InFinalSuspend_def)

subsection \<open>Starting: suppressed or registered\<close>

lemma FindExistingAction_added:
  "FindExistingAction LAM t i = None \<Longrightarrow>
   FindExistingAction (AddNewAction LAM t i a) t i = Some a"
  by (induction LAM) (auto simp add: AddNewAction_def)

lemma Handle_destroy_frame:
  "Frame s = Some p \<Longrightarrow> PendingLatentCoroutine p \<Longrightarrow> Action s = Some b \<Longrightarrow> Promise b \<Longrightarrow>
   \<exists>s'. Handle_destroy True u s = Inr s' \<and> Frame s' = None"
  by (simp add: Handle_destroy_def FLatentPromise_dtor_def Pending_def Detach_def Let_def)

text \<open>
  C1. A latent coroutine starts on the game thread with its world resolved and
  its bridge object in place. If the action manager already holds an action
  for the bridge's (callback target, id), or the callback target is not valid,
  \<open>initial_suspend\<close> chooses \<open>Destroy\<close> and leaves the action manager as it is;
  the start then destroys the frame, and the base class's resume, which alone
  enters the body, is not part of that result. Otherwise \<open>initial_suspend\<close>
  chooses \<open>Resume\<close> and hands back the action manager with the bridge added
  under that pair; the start then is the base class's resume on the unchanged
  state, in the same call. So either the action manager is untouched and the
  frame destroyed, or the bridge is registered and the body resumed.
\<close>

theorem initial_suspend_exactly_one:
  "Frame s = Some p \<Longrightarrow> World p = Some w \<Longrightarrow> PendingLatentCoroutine p \<Longrightarrow>
   Action s = Some b \<Longrightarrow> Promise b \<Longrightarrow> \<not> bDetached (LatentFlags p) \<Longrightarrow>
   (FindExistingAction LAM (CallbackTarget (LatentInfo b)) (UUID (LatentInfo b)) \<noteq> None \<or>
      \<not> IsValid (CallbackTarget (LatentInfo b)) \<longrightarrow>
      initial_suspend True LAM s = Inr (FInitialSuspend_Destroy, LAM) \<and>
      (\<exists>s'. Handle_destroy True u s = Inr s' \<and> Frame s' = None \<and>
            start_latent True u base LAM s = Inr (FInitialSuspend_Destroy, LAM, s'))) \<and>
   (\<not> (FindExistingAction LAM (CallbackTarget (LatentInfo b)) (UUID (LatentInfo b)) \<noteq> None \<or>
        \<not> IsValid (CallbackTarget (LatentInfo b))) \<longrightarrow>
      initial_suspend True LAM s
        = Inr (FInitialSuspend_Resume,
               AddNewAction LAM (CallbackTarget (LatentInfo b)) (UUID (LatentInfo b)) b) \<and>
      AddNewAction LAM (CallbackTarget (LatentInfo b)) (UUID (LatentInfo b)) b \<noteq> LAM \<and>
      FindExistingAction
          (AddNewAction LAM (CallbackTarget (LatentInfo b)) (UUID (LatentInfo b)) b)
          (CallbackTarget (LatentInfo b)) (UUID (LatentInfo b)) = Some b \<and>
      start_latent True u base LAM s =
        (case base False s of
           Inl e \<Rightarrow> Inl e
         | Inr s' \<Rightarrow>
             Inr (FInitialSuspend_Resume,
                  AddNewAction LAM (CallbackTarget (LatentInfo b)) (UUID (LatentInfo b)) b, s')))"
proof -
  assume frame: "Frame s = Some p" and world: "World p = Some w"
    and pending: "PendingLatentCoroutine p" and bridge: "Action s = Some b" "Promise b"
    and attached: "\<not> bDetached (LatentFlags p)"
  let ?t = "CallbackTarget (LatentInfo b)" and ?i = "UUID (LatentInfo b)"
  let ?refused = "FindExistingAction LAM ?t ?i \<noteq> None \<or> \<not> IsValid ?t"
  from frame pending bridge obtain s' where
    destroyed: "Handle_destroy True u s = Inr s'" "Frame s' = None"
    using Handle_destroy_frame by blast
  have choice: "initial_suspend True LAM s =
      Inr (if ?refused then (FInitialSuspend_Destroy, LAM)
           else (FInitialSuspend_Resume, AddNewAction LAM ?t ?i b))"
    using frame world pending bridge by (simp add: initial_suspend_def Pending_def Let_def)
  have suppressed: "?refused \<longrightarrow>
      start_latent True u base LAM s = Inr (FInitialSuspend_Destroy, LAM, s')"
    using choice destroyed by (simp add: start_latent_def await_suspend_def)
  have resumed: "\<not> ?refused \<longrightarrow> start_latent True u base LAM s =
      (case base False s of
         Inl e \<Rightarrow> Inl e
       | Inr s' \<Rightarrow> Inr (FInitialSuspend_Resume, AddNewAction LAM ?t ?i b, s'))"
    using choice frame attached
    by (simp add: start_latent_def await_suspend_def Resume_def split: sum.splits)
  have grown: "AddNewAction LAM ?t ?i b \<noteq> LAM"
    by (simp add: AddNewAction_def)
  have found: "\<not> ?refused \<longrightarrow> FindExistingAction (AddNewAction LAM ?t ?i b) ?t ?i = Some b"
    using FindExistingAction_added by blast
  from choice suppressed resumed grown found destroyed show ?thesis
    by (cases ?refused) auto
qed

theorem initial_suspend_exactly_one_witness:
  "Frame sample_system = Some sample_promise \<and> World sample_promise = Some 1 \<and>
   PendingLatentCoroutine sample_promise \<and> Action sample_system = Some sample_bridge \<and>
   Promise sample_bridge \<and> \<not> bDetached (LatentFlags sample_promise) \<and>
   start_latent True False (\<lambda>_. Inr) [] sample_system
     = Inr (FInitialSuspend_Resume, [(Some sample_target, 42, sample_bridge)], sample_system) \<and>
   start_latent True False (\<lambda>_. Inr) [(Some sample_target, 42, sample_bridge)] sample_system
     = Inr (FInitialSuspend_Destroy, [(Some sample_target, 42, sample_bridge)],
            sample_system\<lparr>Frame := None, ExitReasonSeen := [Normal]\<rparr>)"
proof -
  have frame: "Frame sample_system = Some sample_promise"
    and world: "World sample_promise = Some 1"
    and pending: "PendingLatentCoroutine sample_promise"
    and bridge: "Action sample_system = Some sample_bridge" "Promise sample_bridge"
    and attached: "\<not> bDetached (LatentFlags sample_promise)"
    by (simp_all add: sample_system_def sample_promise_def sample_bridge_def bDetached_def)
  have info: "CallbackTarget (LatentInfo sample_bridge) = Some sample_target"
    "UUID (LatentInfo sample_bridge) = 42" "IsValid (Some sample_target)"
    by (simp_all add: sample_bridge_def sample_info_def sample_target_def IsValid_def)
  have gone: "Handle_destroy True False sample_system
      = Inr (sample_system\<lparr>Frame := None, ExitReasonSeen := [Normal]\<rparr>)"
    by (simp add: Handle_destroy_def FLatentPromise_dtor_def sample_system_def)
  from initial_suspend_exactly_one [OF frame world pending bridge attached,
      of "[]" False "\<lambda>_. Inr"] info
  have first: "start_latent True False (\<lambda>_. Inr) [] sample_system
      = Inr (FInitialSuspend_Resume, [(Some sample_target, 42, sample_bridge)], sample_system)"
    by (simp add: AddNewAction_def)
  from initial_suspend_exactly_one [OF frame world pending bridge attached,
      of "[(Some sample_target, 42, sample_bridge)]" False "\<lambda>_. Inr"] info gone
  have second: "start_latent True False (\<lambda>_. Inr) [(Some sample_target, 42, sample_bridge)]
      sample_system
      = Inr (FInitialSuspend_Destroy, [(Some sample_target, 42, sample_bridge)],
             sample_system\<lparr>Frame := None, ExitReasonSeen := [Normal]\<rparr>)"
    by auto
  from frame world pending bridge attached first second show ?thesis by simp
qed

subsection \<open>Resolving the world\<close>

lemma Init_resolves:
  "LatentInfoCount Args + (if PendingLatentCoroutine p then 1 else 0) = 1 \<Longrightarrow>
   (case (case World p of None \<Rightarrow> first_world (world_contexts Args) | Some w \<Rightarrow> Some w) of
      Some w \<Rightarrow> \<exists>p' a'. Init G Args (p, a) = Inr (p', a') \<and> World p' = Some w
    | None \<Rightarrow>
        (case G of
           Some g \<Rightarrow> \<exists>p' a'. Init G Args (p, a) = Inr (p', a') \<and> World p' = Some g
         | None \<Rightarrow> Init G Args (p, a) = Inl NoWorld))"
proof (induction Args arbitrary: p a)
  case Nil
  then show ?case by (auto split: option.splits if_splits)
next
  case (Cons x Args)
  show ?case
  proof (cases x)
    case (ConstUObjectPtr WorldContext)
    with Cons.prems Cons.IH [of "Init_WorldContext WorldContext p" a] show ?thesis
      by (cases WorldContext; cases "World p")
        (auto simp add: Init_WorldContext_def split: option.splits)
  next
    case (ObjectPtr Ptr)
    with Cons.prems Cons.IH [of p a] show ?thesis
      by (auto split: option.splits)
  next
    case (UObjectRef First)
    with Cons.prems Cons.IH [of "Init_WorldContext (Some First) p" a] show ?thesis
      by (cases "World p") (auto simp add: Init_WorldContext_def split: option.splits)
  next
    case (LatentInfoArg Info)
    with Cons.prems have fresh: "\<not> PendingLatentCoroutine p" "LatentInfoCount Args = 0"
      by (auto split: if_splits)
    with LatentInfoArg
      Cons.IH [of "p\<lparr>PendingLatentCoroutine := True\<rparr>"
        "Some \<lparr>Promise = True, LatentInfo = Info, CurrentAwaiter = None\<rparr>"]
    show ?thesis by (auto simp add: CreateLatentAction_def split: option.splits)
  next
    case OtherArg
    with Cons.prems Cons.IH [of p a] show ?thesis
      by (auto split: option.splits)
  qed
qed

lemma Init_world_resolved:
  "LatentInfoCount Args = 1 \<Longrightarrow>
   (case first_world (world_contexts Args) of
      Some w \<Rightarrow> \<exists>p a. FLatentPromise_ctor True G Args = Inr (p, a) \<and> World p = Some w
    | None \<Rightarrow>
        (case G of
           Some g \<Rightarrow> \<exists>p a. FLatentPromise_ctor True G Args = Inr (p, a) \<and> World p = Some g
         | None \<Rightarrow> FLatentPromise_ctor True G Args = Inl NoWorld))"
  using Init_resolves [of Args new_promise G None]
  by (auto simp add: FLatentPromise_ctor_def new_promise_def split: option.splits)

lemma scan_agrees_without_object_pointers:
  "(\<forall>Ptr. ObjectPtr Ptr \<notin> set Args) \<Longrightarrow>
   first_world (world_contexts Args) = spec_first_context Args"
proof (induction Args)
  case Nil
  then show ?case by simp
next
  case (Cons x Args)
  then show ?case
    by (cases x) (auto split: option.splits)
qed

text \<open>
  C8. The scan goes left to right, passes over an argument that yields no
  context, falls back to \<open>GWorld\<close> and fails without one, but it does not
  take the world from every owning-object argument. A coroutine called with a
  \<^verbatim>\<open>UObject*\<close> whose world is 5, a latent info, and \<open>GWorld\<close> 4: the first
  owning-object argument yields the context 5, and the promise ends up with
  \<open>GWorld\<close>, because the generic overload takes the pointer and drops it. The
  same object passed as a \<^verbatim>\<open>const UObject*\<close> or by reference gives the world
  5.
\<close>

theorem Init_drops_object_pointer:
  "spec_first_context
     [ObjectPtr (Some (sample_target\<lparr>GetWorld := Some 5\<rparr>)), LatentInfoArg sample_info]
     = Some 5 \<and>
   FLatentPromise_ctor True (Some 4)
     [ObjectPtr (Some (sample_target\<lparr>GetWorld := Some 5\<rparr>)), LatentInfoArg sample_info]
     = Inr (new_promise\<lparr>World := Some 4, PendingLatentCoroutine := True\<rparr>,
            Some \<lparr>Promise = True, LatentInfo = sample_info, CurrentAwaiter = None\<rparr>) \<and>
   FLatentPromise_ctor True (Some 4)
     [ConstUObjectPtr (Some (sample_target\<lparr>GetWorld := Some 5\<rparr>)), LatentInfoArg sample_info]
     = Inr (new_promise\<lparr>World := Some 5, PendingLatentCoroutine := True\<rparr>,
            Some \<lparr>Promise = True, LatentInfo = sample_info, CurrentAwaiter = None\<rparr>) \<and>
   FLatentPromise_ctor True (Some 4)
     [UObjectRef (sample_target\<lparr>GetWorld := Some 5\<rparr>), LatentInfoArg sample_info]
     = Inr (new_promise\<lparr>World := Some 5, PendingLatentCoroutine := True\<rparr>,
            Some \<lparr>Promise = True, LatentInfo = sample_info, CurrentAwaiter = None\<rparr>)"
  by (simp add: FLatentPromise_ctor_def new_promise_def CreateLatentAction_def
      Init_WorldContext_def sample_target_def)

subsection \<open>Starting an ability coroutine\<close>

lemma FAbilityPromise_ctor_flag:
  "FAbilityPromise_ctor gt G Target st = Inr (pa, st1) \<Longrightarrow>
   gt \<and> st1 = st\<lparr>DummyId := DummyId st + 1\<rparr>"
  by (auto simp add: FAbilityPromise_ctor_def MakeLatentInfo_def split: sum.splits if_splits)

lemma TAbilityPromise_ctor_started:
  "TAbilityPromise_ctor gt G cs Target st = Inr (pa, st') \<Longrightarrow>
   bCalledFromActivate st \<and>
   st' = cs (st\<lparr>DummyId := DummyId st + 1, bCalledFromActivate := False\<rparr>)"
  by (auto simp add: TAbilityPromise_ctor_def
      split: sum.splits if_splits dest!: FAbilityPromise_ctor_flag)

lemma started_bound:
  "(\<And>x. bCalledFromActivate (cs x) = bCalledFromActivate x) \<Longrightarrow>
   started G cs ops st \<le> (if bCalledFromActivate st then 1 else 0) + settings ops"
proof (induction ops arbitrary: st)
  case Nil
  then show ?case by simp
next
  case (Cons x ops)
  show ?case
  proof (cases x)
    case SetCalledFromActivate
    with Cons.IH [OF Cons.prems, of "st\<lparr>bCalledFromActivate := True\<rparr>"] show ?thesis
      by (simp add: settings_def)
  next
    case (StartCoroutine Target)
    show ?thesis
    proof (cases "TAbilityPromise_ctor True G cs Target st")
      case (Inl e)
      with StartCoroutine show ?thesis by simp
    next
      case (Inr r)
      obtain pa st' where r: "r = (pa, st')" by (cases r)
      from Inr r TAbilityPromise_ctor_started [of True G cs Target st pa st']
      have was: "bCalledFromActivate st"
        and now: "st' = cs (st\<lparr>DummyId := DummyId st + 1, bCalledFromActivate := False\<rparr>)"
        by simp_all
      from now Cons.prems have "\<not> bCalledFromActivate st'" by simp
      with Cons.IH [OF Cons.prems, of st'] StartCoroutine Inr r was show ?thesis
        by (simp add: settings_def)
    qed
  qed
qed

text \<open>
  C10. Constructing an ability promise with \<open>bCalledFromActivate\<close> false never
  succeeds: once the base class is constructed, the "do not call Execute
  coroutines directly" assertion fires. With the flag true the constructor
  clears it first and then calls the target's \<open>CoroutineStarting\<close>, which
  therefore runs with the flag already false. So, as long as
  \<open>CoroutineStarting\<close> leaves the flag alone, the starts that go through in
  any history number at most the settings of the flag in it, plus one if the
  flag was set to begin with.
\<close>

theorem ability_start_needs_flag:
  "(\<forall>x. bCalledFromActivate (cs x) = bCalledFromActivate x) \<Longrightarrow>
   (\<not> bCalledFromActivate st \<longrightarrow> (\<exists>e. TAbilityPromise_ctor gt G cs Target st = Inl e)) \<and>
   (\<forall>pa st1. FAbilityPromise_ctor gt G Target st = Inr (pa, st1) \<longrightarrow>
      bCalledFromActivate st1 = bCalledFromActivate st \<and>
      TAbilityPromise_ctor gt G cs Target st =
        (if bCalledFromActivate st
         then Inr (pa, cs (st1\<lparr>bCalledFromActivate := False\<rparr>))
         else Inl DirectExecuteCall)) \<and>
   (\<forall>pa st'. TAbilityPromise_ctor gt G cs Target st = Inr (pa, st') \<longrightarrow>
      bCalledFromActivate st \<and> \<not> bCalledFromActivate st' \<and>
      (\<forall>Target'. \<exists>e. TAbilityPromise_ctor gt G cs Target' st' = Inl e)) \<and>
   started G cs ops st \<le> (if bCalledFromActivate st then 1 else 0) + settings ops"
proof -
  assume keeps: "\<forall>x. bCalledFromActivate (cs x) = bCalledFromActivate x"
  have refused: "\<exists>e. TAbilityPromise_ctor gt G cs T x = Inl e"
    if "\<not> bCalledFromActivate x" for T and x :: "'a ability_state"
  proof (cases "TAbilityPromise_ctor gt G cs T x")
    case (Inl e)
    then show ?thesis by blast
  next
    case (Inr r)
    obtain pa st' where "r = (pa, st')" by (cases r)
    with Inr TAbilityPromise_ctor_started [of gt G cs T x pa st'] that show ?thesis by simp
  qed
  have base: "\<forall>pa st1. FAbilityPromise_ctor gt G Target st = Inr (pa, st1) \<longrightarrow>
      bCalledFromActivate st1 = bCalledFromActivate st \<and>
      TAbilityPromise_ctor gt G cs Target st =
        (if bCalledFromActivate st
         then Inr (pa, cs (st1\<lparr>bCalledFromActivate := False\<rparr>))
         else Inl DirectExecuteCall)"
    by (auto simp add: TAbilityPromise_ctor_def dest!: FAbilityPromise_ctor_flag)
  have once: "\<forall>pa st'. TAbilityPromise_ctor gt G cs Target st = Inr (pa, st') \<longrightarrow>
      bCalledFromActivate st \<and> \<not> bCalledFromActivate st' \<and>
      (\<forall>Target'. \<exists>e. TAbilityPromise_ctor gt G cs Target' st' = Inl e)"
  proof (intro allI impI)
    fix pa st' assume "TAbilityPromise_ctor gt G cs Target st = Inr (pa, st')"
    from TAbilityPromise_ctor_started [OF this] keeps
    have "bCalledFromActivate st" "\<not> bCalledFromActivate st'" by simp_all
    with refused [of st'] show "bCalledFromActivate st \<and> \<not> bCalledFromActivate st' \<and>
        (\<forall>Target'. \<exists>e. TAbilityPromise_ctor gt G cs Target' st' = Inl e)"
      by blast
  qed
  have bound: "started G cs ops st \<le> (if bCalledFromActivate st then 1 else 0) + settings ops"
    using keeps by (intro started_bound) simp
  from refused [of st Target] base once bound show ?thesis by blast
qed

theorem ability_start_needs_flag_witness:
  "(\<forall>x :: nat ability_state.
      bCalledFromActivate (x\<lparr>TargetState := Suc (TargetState x)\<rparr>) = bCalledFromActivate x) \<and>
   TAbilityPromise_ctor True (Some 4) (\<lambda>x. x\<lparr>TargetState := Suc (TargetState x)\<rparr>) sample_target
       \<lparr>bCalledFromActivate = True, DummyId = 0, TargetState = 0\<rparr>
     = Inr ((new_promise\<lparr>World := Some 1, PendingLatentCoroutine := True\<rparr>,
             Some \<lparr>Promise = True,
                   LatentInfo = \<lparr>Linkage = 0, UUID = 0, ExecutionFunction = ''None'',
                                 CallbackTarget = Some sample_target\<rparr>,
                   CurrentAwaiter = None\<rparr>),
            \<lparr>bCalledFromActivate = False, DummyId = 1, TargetState = 1\<rparr>) \<and>
   TAbilityPromise_ctor True (Some 4) (\<lambda>x. x\<lparr>TargetState := Suc (TargetState x)\<rparr>) sample_target
       \<lparr>bCalledFromActivate = False, DummyId = 1, TargetState = 1\<rparr>
     = Inl DirectExecuteCall \<and>
   started (Some 4) (\<lambda>x. x\<lparr>TargetState := Suc (TargetState x)\<rparr>)
       [StartCoroutine sample_target, StartCoroutine sample_target,
        SetCalledFromActivate, StartCoroutine sample_target]
       \<lparr>bCalledFromActivate = True, DummyId = 0, TargetState = 0\<rparr> = 1"
  using ability_start_needs_flag
    [of "\<lambda>x :: nat ability_state. x\<lparr>TargetState := Suc (TargetState x)\<rparr>"
        "\<lparr>bCalledFromActivate = True, DummyId = 0, TargetState = 0\<rparr>"
        True "Some 4" sample_target
        "[StartCoroutine sample_target, StartCoroutine sample_target,
          SetCalledFromActivate, StartCoroutine sample_target]"]
  by (simp add: TAbilityPromise_ctor_def FAbilityPromise_ctor_def MakeLatentInfo_def
      FLatentPromise_ctor_def CreateLatentAction_def Init_WorldContext_def new_promise_def
      sample_target_def settings_def)

subsection \<open>Aggregate awaiters\<close>

lemma length_Consume_each: "length (Consume_each i As) = length As"
  by (induction As arbitrary: i) simp_all

lemma Consume_each_nth:
  "k < length As \<Longrightarrow> Consume_each i As ! k = (i + int k, As ! k)"
proof (induction As arbitrary: i k)
  case Nil
  then show ?case by simp
next
  case (Cons A As)
  then show ?case by (cases k) simp_all
qed

lemma completions_append: "completions (es @ es') = completions es @ completions es'"
  by (induction es rule: completions.induct) simp_all

lemma completions_mem: "k \<in> set (completions es) \<longleftrightarrow> Completed k \<in> set es"
  by (induction es rule: completions.induct) auto

lemma distinct_completions: "distinct es \<Longrightarrow> distinct (completions es)"
  by (induction es rule: completions.induct) (auto simp add: completions_mem)

lemma run_snoc:
  "run aw (es @ [e]) =
     (case run aw es of
        (aw1, wakes1) \<Rightarrow> (case step aw1 e of (aw2, wakes2) \<Rightarrow> (aw2, wakes1 @ wakes2)))"
  by (induction es arbitrary: aw) (auto split: prod.splits)

lemma schedule_snoc:
  "schedule n h (es @ [e]) \<longleftrightarrow>
   schedule n h es \<and> e \<notin> set es \<and>
   (case e of Completed k \<Rightarrow> k < n | ParentAwait h' \<Rightarrow> h' = h)"
  by (auto simp add: schedule_def)

lemma step_Completed:
  "k < length As \<Longrightarrow> Consumers aw = Consume_each 0 As \<Longrightarrow>
   step aw (Completed k) =
     (if Count (Data aw) = 1
      then (aw\<lparr>Data := (Data aw)\<lparr>Count := 0, Index := int k\<rparr>\<rparr>,
            if Handle (Data aw) = monostate then [] else [ResumedThrough (Handle (Data aw))])
      else (aw\<lparr>Data := (Data aw)\<lparr>Count := Count (Data aw) - 1\<rparr>\<rparr>, []))"
  by (cases "Handle (Data aw)")
    (simp_all add: step_def Consume_completed_def Let_def length_Consume_each Consume_each_nth)

lemma step_ParentAwait:
  "step aw (ParentAwait h) =
     (if Count (Data aw) \<le> 0 then (aw, [ReadyWithoutSuspending])
      else (aw\<lparr>Data := (Data aw)\<lparr>Handle := h\<rparr>\<rparr>, []))"
  by (simp add: step_def await_ready_def Aggregate_await_suspend_def)

lemma run_facts:
  "schedule (length As) h es \<Longrightarrow> run (FAggregateAwaiter_ctor c As) es = (aw, wakes) \<Longrightarrow>
   Consumers aw = Consume_each 0 As \<and>
   Count (Data aw) = c - int (length (completions es)) \<and>
   (Handle (Data aw) \<noteq> monostate \<longrightarrow> ParentAwait h \<in> set es \<and> Handle (Data aw) = h) \<and>
   (Handle (Data aw) = monostate \<and> ParentAwait h \<in> set es \<longrightarrow> Count (Data aw) \<le> 0) \<and>
   length wakes = (if ParentAwait h \<in> set es \<and> Count (Data aw) \<le> 0 then 1 else 0) \<and>
   set wakes \<subseteq> {ReadyWithoutSuspending, ResumedThrough h} \<and>
   Index (Data aw) =
     (if 1 \<le> c \<and> nat c \<le> length (completions es)
      then int (completions es ! (nat c - 1)) else - 1)"
proof (induction es arbitrary: aw wakes rule: rev_induct)
  case Nil
  then show ?case
    by (auto simp add: FAggregateAwaiter_ctor_def FData_ctor_def)
next
  case (snoc e es)
  obtain aw0 wakes0 where before: "run (FAggregateAwaiter_ctor c As) es = (aw0, wakes0)"
    by (cases "run (FAggregateAwaiter_ctor c As) es")
  from snoc.prems(1) have sched: "schedule (length As) h es" and fresh: "e \<notin> set es"
    and h: "h \<noteq> monostate"
    by (simp_all add: schedule_snoc) (simp add: schedule_def)
  from snoc.IH [OF sched before]
  have consumers: "Consumers aw0 = Consume_each 0 As"
    and count: "Count (Data aw0) = c - int (length (completions es))"
    and handle: "Handle (Data aw0) \<noteq> monostate \<longrightarrow>
        ParentAwait h \<in> set es \<and> Handle (Data aw0) = h"
    and ready: "Handle (Data aw0) = monostate \<and> ParentAwait h \<in> set es \<longrightarrow>
        Count (Data aw0) \<le> 0"
    and woken: "length wakes0 =
        (if ParentAwait h \<in> set es \<and> Count (Data aw0) \<le> 0 then 1 else 0)"
    and through: "set wakes0 \<subseteq> {ReadyWithoutSuspending, ResumedThrough h}"
    and index: "Index (Data aw0) =
        (if 1 \<le> c \<and> nat c \<le> length (completions es)
         then int (completions es ! (nat c - 1)) else - 1)"
    by blast+
  from snoc.prems(2) before
  have after: "(aw, wakes) = (case step aw0 e of (aw2, wakes2) \<Rightarrow> (aw2, wakes0 @ wakes2))"
    by (simp add: run_snoc)
  show ?case
  proof (cases e)
    case (Completed k)
    with snoc.prems(1) have k: "k < length As" by (simp add: schedule_snoc)
    have comp: "completions (es @ [e]) = completions es @ [k]"
      using Completed by (simp add: completions_append)
    show ?thesis
    proof (cases "Count (Data aw0) = 1")
      case True
      with after Completed step_Completed [OF k consumers]
      have aw: "aw = aw0\<lparr>Data := (Data aw0)\<lparr>Count := 0, Index := int k\<rparr>\<rparr>"
        and wakes: "wakes = wakes0 @
          (if Handle (Data aw0) = monostate then [] else [ResumedThrough (Handle (Data aw0))])"
        by simp_all
      from True count have len: "1 \<le> c" "nat c = Suc (length (completions es))"
        by simp_all
      have "Consumers aw = Consume_each 0 As" using aw consumers by simp
      moreover have "Count (Data aw) = c - int (length (completions (es @ [e])))"
        using aw comp len by simp
      moreover have "Handle (Data aw) \<noteq> monostate \<longrightarrow>
          ParentAwait h \<in> set (es @ [e]) \<and> Handle (Data aw) = h"
        using aw handle by auto
      moreover have "Handle (Data aw) = monostate \<and> ParentAwait h \<in> set (es @ [e]) \<longrightarrow>
          Count (Data aw) \<le> 0"
        using aw by simp
      moreover have "length wakes =
          (if ParentAwait h \<in> set (es @ [e]) \<and> Count (Data aw) \<le> 0 then 1 else 0)"
        using aw wakes woken True ready handle Completed by auto
      moreover have "set wakes \<subseteq> {ReadyWithoutSuspending, ResumedThrough h}"
        using wakes through handle by auto
      moreover have "Index (Data aw) =
          (if 1 \<le> c \<and> nat c \<le> length (completions (es @ [e]))
           then int (completions (es @ [e]) ! (nat c - 1)) else - 1)"
        using aw comp len by (simp add: nth_append)
      ultimately show ?thesis by blast
    next
      case False
      with after Completed step_Completed [OF k consumers]
      have aw: "aw = aw0\<lparr>Data := (Data aw0)\<lparr>Count := Count (Data aw0) - 1\<rparr>\<rparr>"
        and wakes: "wakes = wakes0"
        by simp_all
      from False count have len: "\<not> (1 \<le> c \<and> nat c = Suc (length (completions es)))"
        by auto
      have "Consumers aw = Consume_each 0 As" using aw consumers by simp
      moreover have "Count (Data aw) = c - int (length (completions (es @ [e])))"
        using aw comp count by simp
      moreover have "Handle (Data aw) \<noteq> monostate \<longrightarrow>
          ParentAwait h \<in> set (es @ [e]) \<and> Handle (Data aw) = h"
        using aw handle by auto
      moreover have "Handle (Data aw) = monostate \<and> ParentAwait h \<in> set (es @ [e]) \<longrightarrow>
          Count (Data aw) \<le> 0"
        using aw ready Completed by auto
      moreover have "length wakes =
          (if ParentAwait h \<in> set (es @ [e]) \<and> Count (Data aw) \<le> 0 then 1 else 0)"
        using aw wakes woken False Completed by auto
      moreover have "set wakes \<subseteq> {ReadyWithoutSuspending, ResumedThrough h}"
        using wakes through by simp
      moreover have "Index (Data aw) =
          (if 1 \<le> c \<and> nat c \<le> length (completions (es @ [e]))
           then int (completions (es @ [e]) ! (nat c - 1)) else - 1)"
        using aw comp len index by (auto simp add: nth_append)
      ultimately show ?thesis by blast
    qed
  next
    case (ParentAwait h')
    with snoc.prems(1) have same: "h' = h" by (simp add: schedule_snoc)
    with fresh ParentAwait have first: "ParentAwait h \<notin> set es" by simp
    with handle have none: "Handle (Data aw0) = monostate" by blast
    from first woken have quiet: "wakes0 = []" by simp
    have comp: "completions (es @ [e]) = completions es"
      using ParentAwait by (simp add: completions_append)
    show ?thesis
    proof (cases "Count (Data aw0) \<le> 0")
      case True
      with after ParentAwait same quiet
      have "aw = aw0" "wakes = [ReadyWithoutSuspending]"
        by (simp_all add: step_ParentAwait)
      with True consumers count none index comp ParentAwait same show ?thesis by simp
    next
      case False
      with after ParentAwait same quiet
      have "aw = aw0\<lparr>Data := (Data aw0)\<lparr>Handle := h\<rparr>\<rparr>" "wakes = []"
        by (simp_all add: step_ParentAwait)
      with False consumers count index comp ParentAwait same h show ?thesis by simp
    qed
  qed
qed

lemma all_completed:
  assumes "schedule n h es"
  shows "int n - int (length (completions es)) \<le> 0 \<longleftrightarrow> (\<forall>k<n. Completed k \<in> set es)"
proof -
  from assms have "distinct es" and below: "\<forall>k. Completed k \<in> set es \<longrightarrow> k < n"
    by (auto simp add: schedule_def list_all_iff)
  then have card: "card (set (completions es)) = length (completions es)"
    using distinct_completions distinct_card by blast
  from below have sub: "set (completions es) \<subseteq> {..<n}"
    by (auto simp add: completions_mem)
  show ?thesis
  proof
    assume "int n - int (length (completions es)) \<le> 0"
    with card have "card {..<n} \<le> card (set (completions es))" by simp
    with sub have "set (completions es) = {..<n}"
      by (simp add: card_seteq)
    then show "\<forall>k<n. Completed k \<in> set es"
      using completions_mem by blast
  next
    assume "\<forall>k<n. Completed k \<in> set es"
    then have "{..<n} \<subseteq> set (completions es)"
      by (auto simp add: completions_mem)
    then have "card {..<n} \<le> card (set (completions es))"
      by (intro card_mono) simp_all
    with card show "int n - int (length (completions es)) \<le> 0" by simp
  qed
qed

text \<open>
  C3. \<open>WhenAll\<close> on \<open>N\<close> arguments starts the shared counter at \<open>N\<close>. In
  every schedule, and so at every moment of one, the parent has been woken
  once if it has awaited the aggregate and all \<open>N\<close> awaiters have completed,
  and not at all otherwise; a wake-up is the parent going on without
  suspending or a resume through the parent's own handle. With no argument the
  aggregate is ready at once and the parent goes on without suspending.
\<close>

theorem WhenAll_resumes_after_all:
  "schedule (length Args) h es \<Longrightarrow>
   Count (Data (WhenAll Args)) = int (length Args) \<and>
   length (snd (run (WhenAll Args) es)) =
     (if ParentAwait h \<in> set es \<and> (\<forall>k<length Args. Completed k \<in> set es) then 1 else 0) \<and>
   set (snd (run (WhenAll Args) es)) \<subseteq> {ReadyWithoutSuspending, ResumedThrough h} \<and>
   (Args = [] \<longrightarrow>
      await_ready (Data (WhenAll Args)) \<and>
      run (WhenAll Args) [ParentAwait h] = (WhenAll Args, [ReadyWithoutSuspending]))"
proof -
  assume sched: "schedule (length Args) h es"
  obtain aw wakes where whole: "run (WhenAll Args) es = (aw, wakes)"
    by (cases "run (WhenAll Args) es")
  then have r: "run (FAggregateAwaiter_ctor (int (length Args)) Args) es = (aw, wakes)"
    by (simp only: WhenAll_def)
  from run_facts [OF sched r]
  have count: "Count (Data aw) = int (length Args) - int (length (completions es))"
    and woken: "length wakes =
      (if ParentAwait h \<in> set es \<and> Count (Data aw) \<le> 0 then 1 else 0)"
    and through: "set wakes \<subseteq> {ReadyWithoutSuspending, ResumedThrough h}"
    by blast+
  from count all_completed [OF sched]
  have "Count (Data aw) \<le> 0 \<longleftrightarrow> (\<forall>k<length Args. Completed k \<in> set es)" by simp
  with woken have once: "length wakes =
      (if ParentAwait h \<in> set es \<and> (\<forall>k<length Args. Completed k \<in> set es) then 1 else 0)"
    by simp
  have start: "Count (Data (WhenAll Args)) = int (length Args)"
    by (simp add: WhenAll_def FAggregateAwaiter_ctor_def FData_ctor_def)
  have empty: "Args = [] \<longrightarrow>
      await_ready (Data (WhenAll Args)) \<and>
      run (WhenAll Args) [ParentAwait h] = (WhenAll Args, [ReadyWithoutSuspending])"
    by (simp add: WhenAll_def FAggregateAwaiter_ctor_def FData_ctor_def await_ready_def
        step_def)
  from whole once through start empty show ?thesis by simp
qed

theorem WhenAll_resumes_after_all_witness:
  "schedule (length ''abc'') (FLatentHandle 7)
     [Completed 2, ParentAwait (FLatentHandle 7), Completed 0, Completed 1] \<and>
   Count (Data (WhenAll ''abc'')) = 3 \<and>
   snd (run (WhenAll ''abc'') [Completed 2, ParentAwait (FLatentHandle 7), Completed 0])
     = [] \<and>
   snd (run (WhenAll ''abc'')
          [Completed 2, ParentAwait (FLatentHandle 7), Completed 0, Completed 1])
     = [ResumedThrough (FLatentHandle 7)] \<and>
   snd (run (WhenAll ''abc'')
          [Completed 2, Completed 0, Completed 1, ParentAwait (FLatentHandle 7)])
     = [ReadyWithoutSuspending]"
  using WhenAll_resumes_after_all [of "''abc''" "FLatentHandle 7"
      "[Completed 2, ParentAwait (FLatentHandle 7), Completed 0, Completed 1]"]
  by (simp add: schedule_def WhenAll_def FAggregateAwaiter_ctor_def FData_ctor_def step_def
      Consume_completed_def await_ready_def Aggregate_await_suspend_def)

text \<open>
  C2. \<open>WhenAny\<close> starts the shared counter at 1 when it has arguments and at
  0 when it has none. With arguments, in every schedule, and so at every moment
  of one, the parent has been woken once if it has awaited the aggregate and
  some awaiter has completed, and not at all otherwise: the wake-up comes with
  the first completion, or with the parent's await if that comes later. The
  value of the \<open>co_await\<close> is then the argument position of the awaiter that
  completed first, the one whose decrement took the counter to zero.
\<close>

theorem WhenAny_resumes_on_first:
  "schedule (length Args) h es \<Longrightarrow>
   Count (Data (WhenAny Args)) = (if 0 < length Args then 1 else 0) \<and>
   (Args \<noteq> [] \<longrightarrow>
      length (snd (run (WhenAny Args) es)) =
        (if ParentAwait h \<in> set es \<and> completions es \<noteq> [] then 1 else 0)) \<and>
   set (snd (run (WhenAny Args) es)) \<subseteq> {ReadyWithoutSuspending, ResumedThrough h} \<and>
   (completions es \<noteq> [] \<longrightarrow>
      Count (Data (fst (run (WhenAny Args) [Completed (hd (completions es))]))) = 0 \<and>
      FAnyAwaiter_await_resume (fst (run (WhenAny Args) es)) = int (hd (completions es)))"
proof -
  assume sched: "schedule (length Args) h es"
  let ?c = "if length Args \<noteq> 0 then 1 else 0 :: int"
  obtain aw wakes where whole: "run (WhenAny Args) es = (aw, wakes)"
    by (cases "run (WhenAny Args) es")
  then have r: "run (FAggregateAwaiter_ctor ?c Args) es = (aw, wakes)"
    by (simp only: WhenAny_def)
  from run_facts [OF sched r]
  have count: "Count (Data aw) = ?c - int (length (completions es))"
    and woken: "length wakes =
      (if ParentAwait h \<in> set es \<and> Count (Data aw) \<le> 0 then 1 else 0)"
    and through: "set wakes \<subseteq> {ReadyWithoutSuspending, ResumedThrough h}"
    and index: "Index (Data aw) =
      (if 1 \<le> ?c \<and> nat ?c \<le> length (completions es)
       then int (completions es ! (nat ?c - 1)) else - 1)"
    by blast+
  have start: "Count (Data (WhenAny Args)) = (if 0 < length Args then 1 else 0)"
    by (simp add: WhenAny_def FAggregateAwaiter_ctor_def FData_ctor_def)
  have once: "Args \<noteq> [] \<longrightarrow> length wakes =
      (if ParentAwait h \<in> set es \<and> completions es \<noteq> [] then 1 else 0)"
    using count woken by (cases "completions es") auto
  have winner: "completions es \<noteq> [] \<longrightarrow>
      Count (Data (fst (run (WhenAny Args) [Completed (hd (completions es))]))) = 0 \<and>
      Index (Data aw) = int (hd (completions es))"
  proof
    assume some: "completions es \<noteq> []"
    then have "hd (completions es) \<in> set (completions es)" by simp
    then have "Completed (hd (completions es)) \<in> set es" by (simp add: completions_mem)
    with sched have k: "hd (completions es) < length Args"
      by (auto simp add: schedule_def list_all_iff)
    then have c: "?c = 1" by auto
    from k have "step (FAggregateAwaiter_ctor 1 Args) (Completed (hd (completions es)))
        = ((FAggregateAwaiter_ctor 1 Args)
             \<lparr>Data := (FData_ctor 1)\<lparr>Count := 0, Index := int (hd (completions es))\<rparr>\<rparr>, [])"
      using step_Completed [of "hd (completions es)" Args "FAggregateAwaiter_ctor 1 Args"]
      by (simp add: FAggregateAwaiter_ctor_def FData_ctor_def)
    with c have zero:
      "Count (Data (fst (run (WhenAny Args) [Completed (hd (completions es))]))) = 0"
      by (simp add: WhenAny_def)
    from some index c have "Index (Data aw) = int (hd (completions es))"
      by (cases "completions es") simp_all
    with zero show "Count (Data (fst (run (WhenAny Args) [Completed (hd (completions es))]))) = 0 \<and>
      Index (Data aw) = int (hd (completions es))" by blast
  qed
  from whole start once through winner show ?thesis
    by (simp add: FAnyAwaiter_await_resume_def GetResumerIndex_def)
qed

theorem WhenAny_resumes_on_first_witness:
  "schedule (length ''abc'') (FAsyncHandle 7)
     [Completed 2, ParentAwait (FAsyncHandle 7), Completed 0, Completed 1] \<and>
   Count (Data (WhenAny ''abc'')) = 1 \<and>
   snd (run (WhenAny ''abc'')
          [Completed 2, ParentAwait (FAsyncHandle 7), Completed 0, Completed 1])
     = [ReadyWithoutSuspending] \<and>
   snd (run (WhenAny ''abc'') [ParentAwait (FAsyncHandle 7), Completed 1, Completed 0])
     = [ResumedThrough (FAsyncHandle 7)] \<and>
   FAnyAwaiter_await_resume
     (fst (run (WhenAny ''abc'')
             [Completed 2, ParentAwait (FAsyncHandle 7), Completed 0, Completed 1])) = 2"
  using WhenAny_resumes_on_first [of "''abc''" "FAsyncHandle 7"
      "[Completed 2, ParentAwait (FAsyncHandle 7), Completed 0, Completed 1]"]
  by (simp add: schedule_def WhenAny_def FAggregateAwaiter_ctor_def FData_ctor_def step_def
      Consume_completed_def await_ready_def Aggregate_await_suspend_def
      FAnyAwaiter_await_resume_def GetResumerIndex_def)

end
